theory Spec2Isabelle
  imports Complex_Main "HOL-Library.Multiset" "HOL-Library.Sublist" "HOL-Library.List_Lexorder"
    "HOL-Library.Log_Nat"
begin

section \<open>Qualitative analysis pipeline: the embedding\<close>

text \<open>
  The notebook \<^verbatim>\<open>notebooks/Qualitative_Analysis.ipynb\<close> loads result files, cleans
  the answer and confidence columns, derives correctness, draws samples for human
  labelling, carves out a reliability subset, batches the rest for raters and merges
  the raters' labels. Each cell is embedded as a function; a \<^verbatim>\<open>raise\<close> is a value
  \<open>Inl e\<close> of the result.
\<close>

subsection \<open>Strings\<close>

text \<open>
  A Python \<^verbatim>\<open>str\<close> is a sequence of Unicode code points, so a string is a list of
  code points here and \<open>length\<close> counts what \<^verbatim>\<open>len\<close> counts. The order on strings
  is the lexicographic order on code points, as Python compares them.
  \<open>ascii\<close> reads an ASCII literal.
\<close>

type_synonym pystr = "nat list"

definition ascii :: "string \<Rightarrow> pystr" where
  "ascii s = map of_char s"

text \<open>
  \<^verbatim>\<open>str.isalpha\<close>, \<^verbatim>\<open>str.isdigit\<close> and the decimal value that \<^verbatim>\<open>float\<close> gives a digit
  are tables of the Unicode character database. The database is a parameter \<open>U\<close> of
  every function that consults it; \<open>ascii_db\<close> is its restriction to ASCII, and
  \<open>ascii_exact U\<close> says that \<open>U\<close> classifies the ASCII code points as Python does.
\<close>

record unicode =
  isalpha :: "nat \<Rightarrow> bool"
  isdigit :: "nat \<Rightarrow> bool"
  decimal :: "nat \<Rightarrow> nat option"

definition ascii_db :: unicode where
  "ascii_db =
     \<lparr> isalpha = (\<lambda>c. (65 \<le> c \<and> c \<le> 90) \<or> (97 \<le> c \<and> c \<le> 122)),
       isdigit = (\<lambda>c. 48 \<le> c \<and> c \<le> 57),
       decimal = (\<lambda>c. if 48 \<le> c \<and> c \<le> 57 then Some (c - 48) else None) \<rparr>"

definition ascii_exact :: "unicode \<Rightarrow> bool" where
  "ascii_exact U =
     (\<forall>c<128. isalpha U c = isalpha ascii_db c \<and> isdigit U c = isdigit ascii_db c
        \<and> decimal U c = decimal ascii_db c)"

text \<open>\<^verbatim>\<open>sep.join(parts)\<close>.\<close>

fun join :: "pystr \<Rightarrow> pystr list \<Rightarrow> pystr" where
  "join sep [] = []"
| "join sep [p] = p"
| "join sep (p # q # ps) = p @ sep @ join sep (q # ps)"

text \<open>\<^verbatim>\<open>s.replace(old, new)\<close>: every occurrence, scanning from the left.\<close>

function str_replace :: "pystr \<Rightarrow> pystr \<Rightarrow> pystr \<Rightarrow> pystr" where
  "str_replace s old new =
     (if old = [] then new @ concat (map (\<lambda>c. c # new) s)
      else if s = [] then []
      else if prefix old s then new @ str_replace (drop (length old) s) old new
      else hd s # str_replace (tl s) old new)"
  by pat_completeness auto
termination
  by (relation "measure (\<lambda>(s, old, new). length s)") auto

declare str_replace.simps [simp del]

text \<open>\<^verbatim>\<open>s.split(sep)\<close> for a separator of one character.\<close>

fun split :: "pystr \<Rightarrow> nat \<Rightarrow> pystr list" where
  "split [] sep = [[]]"
| "split (c # cs) sep =
     (if c = sep then [] # split cs sep
      else (case split cs sep of [] \<Rightarrow> [[c]] | p # ps \<Rightarrow> (c # p) # ps))"

text \<open>
  \<^verbatim>\<open>Series.str.contains(pat, na=False)\<close> for a pattern with no regular-expression
  operator, on one element: a substring test, and \<open>False\<close> on a missing value.
\<close>

fun contains :: "pystr \<Rightarrow> pystr \<Rightarrow> bool" where
  "contains [] pat = (pat = [])"
| "contains (c # cs) pat = (prefix pat (c # cs) \<or> contains cs pat)"

definition str_contains :: "pystr option \<Rightarrow> pystr \<Rightarrow> bool" where
  "str_contains x pat = (case x of None \<Rightarrow> False | Some s \<Rightarrow> contains s pat)"

text \<open>The skip marker of line 198, the two code points U+8DF3 U+8FC7.\<close>

definition skip_marker :: pystr where
  "skip_marker = [36339, 36807]"

subsection \<open>Floating-point numbers\<close>

text \<open>
  A Python \<^verbatim>\<open>float\<close> is an IEEE 754 double. A finite double is modelled by the rational
  it denotes (the two zeros are one value), the two infinities are values of their own,
  and a \<^verbatim>\<open>NaN\<close> is a missing value for \<^verbatim>\<open>pd.isna\<close>, so it is no value here.
\<close>

datatype pyfloat = Finite rat | PosInf | NegInf

text \<open>\<open>pow2 e\<close> is \<open>2\<^sup>e\<close> for an exponent of either sign.\<close>

definition pow2 :: "int \<Rightarrow> rat" where
  "pow2 e = (if 0 \<le> e then 2 ^ nat e else 1 / 2 ^ nat (- e))"

text \<open>Rounding to the nearest integer, a tie going to the even one.\<close>

definition round_half_even :: "rat \<Rightarrow> int" where
  "round_half_even x =
     (let n = \<lfloor>x\<rfloor>; d = x - of_int n
      in if d < 1 / 2 then n else if 1 / 2 < d then n + 1 else if even n then n else n + 1)"

text \<open>
  The exponent \<open>e\<close> with \<open>2\<^sup>e \<le> a < 2\<^sup>e\<^sup>+\<^sup>1\<close> of a positive rational, from the bit lengths
  of its numerator and denominator.
\<close>

definition binary_exponent :: "rat \<Rightarrow> int" where
  "binary_exponent a =
     (let e = bitlen (fst (quotient_of a)) - bitlen (snd (quotient_of a))
      in if pow2 e \<le> a then e else e - 1)"

text \<open>
  The double nearest to a rational, as the conversions of CPython compute it: the
  significand has 53 bits, the exponent is at least \<open>-1022\<close> (below it the doubles are
  the multiples of \<open>2\<^sup>-\<^sup>1\<^sup>0\<^sup>7\<^sup>4\<close>), a tie goes to the even significand, and a value that
  rounds to \<open>2\<^sup>1\<^sup>0\<^sup>2\<^sup>4\<close> or more overflows.
\<close>

definition round_double :: "rat \<Rightarrow> pyfloat" where
  "round_double q =
     (if q = 0 then Finite 0
      else let a = \<bar>q\<bar>;
               e = max (binary_exponent a) (- 1022);
               ulp = pow2 (e - 52);
               v = of_int (round_half_even (a / ulp)) * ulp
           in if 2 ^ 1024 \<le> v then (if 0 < q then PosInf else NegInf)
              else Finite (if 0 < q then v else - v))"

subsection \<open>Errors, cells and tables\<close>

datatype error = ValueError | TypeError | KeyError | IndexError | OverflowError

text \<open>
  A cell is missing (\<^verbatim>\<open>None\<close> or \<^verbatim>\<open>NaN\<close>), a string, an \<^verbatim>\<open>int\<close> of any size or a
  \<^verbatim>\<open>float\<close>. The two answer columns hold strings (or are missing), as the signature
  of \<^verbatim>\<open>clean_answer\<close> says.
\<close>

datatype cell = Missing | Str pystr | PyInt int | PyFloat pyfloat

text \<open>
  \<^verbatim>\<open>pd.DataFrame()\<close> has no column at all, so reading a column of it raises
  \<^verbatim>\<open>KeyError\<close>; every other table is the list of its rows.
\<close>

datatype 'a frame = Empty_DataFrame | DataFrame "'a list"

text \<open>
  The nine columns handed to the raters (lines 281 and 325). The record is declared
  first, so that the unqualified column names below are those of the result tables.
\<close>

record rater_row =
  Sample_ID :: pystr
  Question :: cell
  Selections :: cell
  Correct_Answer :: "pystr option"
  Model_Answer :: "pystr option"
  Official_Explanation :: cell
  Model_Explanation :: cell
  code :: cell
  comment :: cell

text \<open>
  A line of a results file. The model's name is a string on every line. The type of
  the confidence column is a parameter: a raw cell in the file, a number or nothing
  after cleaning, and \<open>unit\<close> once the column is dropped (line 257).
\<close>

record 'c csv_row =
  Question_ID :: cell
  Question :: cell
  Selections :: cell
  Correct_Answer :: "pystr option"
  Model_Answer :: "pystr option"
  Model_Confidence :: 'c
  Official_Explanation :: cell
  Model_Explanation :: cell
  Model :: pystr

text \<open>The result record: the columns added by \<^verbatim>\<open>load_and_process_files\<close>.\<close>

record 'c result_row = "'c csv_row" +
  Condition :: pystr
  Exam_Type :: pystr
  Question_Type :: pystr
  Is_Correct :: bool

text \<open>The sample record: the empty label columns, then the identifier.\<close>

record 'c coded_row = "'c result_row" +
  code :: cell
  comment :: cell

record 'c sample_row = "'c coded_row" +
  Sample_ID :: pystr

subsection \<open>Cleaning (lines 48 to 69)\<close>

definition clean_answer :: "unicode \<Rightarrow> pystr option \<Rightarrow> pystr option" where
  "clean_answer U answer =
     (case answer of
        None \<Rightarrow> answer
      | Some s \<Rightarrow> Some (join [] [[char]. char \<leftarrow> s, isalpha U char]))"

definition digits_value :: "nat list \<Rightarrow> nat" where
  "digits_value ds = foldl (\<lambda>a d. 10 * a + d) 0 ds"

text \<open>
  \<^verbatim>\<open>float(s)\<close> on the strings \<^verbatim>\<open>clean_confidence_value\<close> passes to it: after the
  filter of line 66 only digits and points are left. \<^verbatim>\<open>float\<close> reads the digits before
  and after the first point by their decimal values; it raises \<^verbatim>\<open>ValueError\<close> on a
  second point, on a digit with no decimal value and when there is no digit at all.
  Otherwise it returns the double nearest to the number written, an infinity when the
  number is too large for a double.
\<close>

definition py_float :: "unicode \<Rightarrow> pystr \<Rightarrow> error + pyfloat" where
  "py_float U s =
     (let whole = takeWhile (\<lambda>c. c \<noteq> 46) s;
          frac = drop 1 (dropWhile (\<lambda>c. c \<noteq> 46) s)
      in if 46 \<in> set frac then Inl ValueError
         else case (those (map (decimal U) whole), those (map (decimal U) frac)) of
                (Some ws, Some fs) \<Rightarrow>
                  if ws = [] \<and> fs = [] then Inl ValueError
                  else Inr (round_double
                              (of_nat (digits_value ws) + of_nat (digits_value fs) / 10 ^ length fs))
              | _ \<Rightarrow> Inl ValueError)"

text \<open>
  \<^verbatim>\<open>float(n)\<close> on an \<^verbatim>\<open>int\<close>: the nearest double, and \<^verbatim>\<open>OverflowError\<close> when the
  number is too large for a double.
\<close>

definition int_float :: "int \<Rightarrow> error + pyfloat" where
  "int_float n =
     (case round_double (of_int n) of
        Finite v \<Rightarrow> Inr (Finite v)
      | _ \<Rightarrow> Inl OverflowError)"

text \<open>\<^verbatim>\<open>except (ValueError, TypeError): return None\<close>; any other exception goes on.\<close>

fun except_ValueError_TypeError :: "error + pyfloat \<Rightarrow> error + pyfloat option" where
  "except_ValueError_TypeError (Inr v) = Inr (Some v)"
| "except_ValueError_TypeError (Inl ValueError) = Inr None"
| "except_ValueError_TypeError (Inl TypeError) = Inr None"
| "except_ValueError_TypeError (Inl e) = Inl e"

fun clean_confidence_value :: "unicode \<Rightarrow> cell \<Rightarrow> error + pyfloat option" where
  "clean_confidence_value U Missing = Inr None"
| "clean_confidence_value U (Str x) =
     except_ValueError_TypeError (py_float U (join [] [[c]. c \<leftarrow> x, isdigit U c \<or> c = 46]))"
| "clean_confidence_value U (PyInt x) = except_ValueError_TypeError (int_float x)"
| "clean_confidence_value U (PyFloat x) = except_ValueError_TypeError (Inr x)"

text \<open>
  What the specification calls the decimal number of a string of digits and points:
  defined when the string has at most one point, only decimal digits beside it and at
  least one digit; its value is the digits read as one number, divided by ten for each
  digit after the point.
\<close>

definition decimal_number :: "unicode \<Rightarrow> pystr \<Rightarrow> rat option" where
  "decimal_number U t =
     (if count_list t 46 \<le> 1 \<and> list_all (\<lambda>c. c = 46 \<or> decimal U c \<noteq> None) t
         \<and> list_ex (\<lambda>c. c \<noteq> 46) t
      then Some (of_nat (digits_value (map (\<lambda>c. the (decimal U c)) (filter (\<lambda>c. c \<noteq> 46) t)))
                 / 10 ^ length (drop 1 (dropWhile (\<lambda>c. c \<noteq> 46) t)))
      else None)"

subsection \<open>Loading (lines 71 to 136)\<close>

text \<open>\<^verbatim>\<open>parts.index(x)\<close> raises \<^verbatim>\<open>ValueError\<close> when \<open>x\<close> is not in the list.\<close>

fun list_index :: "'a list \<Rightarrow> 'a \<Rightarrow> error + nat" where
  "list_index [] x = Inl ValueError"
| "list_index (y # ys) x =
     (if y = x then Inr 0
      else (case list_index ys x of Inl e \<Rightarrow> Inl e | Inr i \<Rightarrow> Inr (Suc i)))"

text \<open>\<^verbatim>\<open>parts[i]\<close> for \<open>i \<ge> 0\<close> raises \<^verbatim>\<open>IndexError\<close> past the end.\<close>

definition subscript :: "'a list \<Rightarrow> nat \<Rightarrow> error + 'a" where
  "subscript xs i = (if i < length xs then Inr (xs ! i) else Inl IndexError)"

text \<open>
  \<^verbatim>\<open>df['Model_Answer'] == df['Correct_Answer']\<close> on one row: a missing value equals
  nothing, not even a missing value.
\<close>

definition answers_equal :: "pystr option \<Rightarrow> pystr option \<Rightarrow> bool" where
  "answers_equal a b = (case (a, b) of (Some x, Some y) \<Rightarrow> x = y | _ \<Rightarrow> False)"

text \<open>
  Lines 113 to 124 on one row: the three columns are cleaned, the three columns read
  from the file name are added, and the comparison of the two cleaned answers becomes
  \<^verbatim>\<open>Is_Correct\<close>.
\<close>

definition process_row ::
  "unicode \<Rightarrow> pystr \<Rightarrow> pystr \<Rightarrow> pystr \<Rightarrow> cell csv_row \<Rightarrow> error + (pyfloat option) result_row" where
  "process_row U condition exam_type question_type r =
     (let model_answer = clean_answer U (Model_Answer r) in
      case clean_confidence_value U (Model_Confidence r) of
        Inl e \<Rightarrow> Inl e
      | Inr model_confidence \<Rightarrow>
          let correct_answer = clean_answer U (Correct_Answer r) in
          Inr \<lparr> Question_ID = Question_ID r, Question = Question r, Selections = Selections r,
                Correct_Answer = correct_answer, Model_Answer = model_answer,
                Model_Confidence = model_confidence,
                Official_Explanation = Official_Explanation r,
                Model_Explanation = Model_Explanation r, Model = Model r,
                Condition = condition, Exam_Type = exam_type, Question_Type = question_type,
                Is_Correct = answers_equal model_answer correct_answer \<rparr>)"

text \<open>A column operation runs over the rows and stops at the first exception.\<close>

fun apply_rows :: "('a \<Rightarrow> error + 'b) \<Rightarrow> 'a list \<Rightarrow> error + 'b list" where
  "apply_rows f [] = Inr []"
| "apply_rows f (r # rs) =
     (case f r of
        Inl e \<Rightarrow> Inl e
      | Inr r' \<Rightarrow> (case apply_rows f rs of Inl e \<Rightarrow> Inl e | Inr rs' \<Rightarrow> Inr (r' # rs')))"

text \<open>
  The body of the loop of line 82 for one file, given by its base name and the table
  \<^verbatim>\<open>read_csv\<close> reads from it. \<open>Inr None\<close> is \<^verbatim>\<open>continue\<close>: the file is skipped.
  The \<^verbatim>\<open>try\<close> of line 99 catches \<^verbatim>\<open>ValueError\<close> only.
\<close>

definition process_file ::
  "unicode \<Rightarrow> pystr \<times> cell csv_row list \<Rightarrow> error + (pyfloat option) result_row list option" where
  "process_file U file =
     (let filename = fst file;
          parts = split (str_replace filename (ascii ''.csv'') []) 95
      in if length parts \<noteq> 6 then Inr None
         else
           let exam_type = parts ! 1;
               model = parts ! 2;
               condition = parts ! 3 @ parts ! 4;
               question_type = parts ! 5
           in case (case list_index parts (ascii ''condition'') of
                      Inl e \<Rightarrow> Inl e
                    | Inr condition_index \<Rightarrow>
                        (case subscript parts (condition_index + 1) of
                           Inl e \<Rightarrow> Inl e
                         | Inr condition_num \<Rightarrow> Inr (condition_num \<noteq> ascii ''1''))) of
                Inl ValueError \<Rightarrow> Inr None
              | Inl e \<Rightarrow> Inl e
              | Inr True \<Rightarrow> Inr None
              | Inr False \<Rightarrow>
                  (case apply_rows (process_row U condition exam_type question_type) (snd file) of
                     Inl e \<Rightarrow> Inl e
                   | Inr df \<Rightarrow> Inr (Some df)))"

fun load_loop ::
  "unicode \<Rightarrow> (pystr \<times> cell csv_row list) list \<Rightarrow> (pyfloat option) result_row list list
     \<Rightarrow> error + (pyfloat option) result_row list list" where
  "load_loop U [] dfs = Inr dfs"
| "load_loop U (file # csv_files) dfs =
     (case process_file U file of
        Inl e \<Rightarrow> Inl e
      | Inr None \<Rightarrow> load_loop U csv_files dfs
      | Inr (Some df) \<Rightarrow> load_loop U csv_files (dfs @ [df]))"

text \<open>
  \<^verbatim>\<open>load_and_process_files\<close>; the files \<^verbatim>\<open>glob\<close> finds, with their contents, are the
  argument.
\<close>

definition load_and_process_files ::
  "unicode \<Rightarrow> (pystr \<times> cell csv_row list) list \<Rightarrow> error + (pyfloat option) result_row frame" where
  "load_and_process_files U csv_files =
     (case load_loop U csv_files [] of
        Inl e \<Rightarrow> Inl e
      | Inr dfs \<Rightarrow> Inr (if dfs \<noteq> [] then DataFrame (concat dfs) else Empty_DataFrame))"

subsection \<open>Sampling (lines 169 to 238)\<close>

text \<open>\<^verbatim>\<open>Series.unique()\<close>: the values in the order of their first appearance.\<close>

definition unique :: "'a list \<Rightarrow> 'a list" where
  "unique xs = rev (remdups (rev xs))"

text \<open>
  \<^verbatim>\<open>df.sample(n=n, random_state=seed)\<close> draws without replacement: it raises
  \<^verbatim>\<open>ValueError\<close> when \<open>n\<close> exceeds the number of rows, and otherwise takes the rows at
  the first \<open>n\<close> positions of the permutation of \<open>0..<len(df)\<close> that a generator
  freshly seeded with \<open>seed\<close> produces. That permutation, as a function of the number
  of rows, is the parameter \<open>perm\<close>; \<open>valid_perm\<close> says it is a permutation.
\<close>

definition valid_perm :: "(nat \<Rightarrow> nat list) \<Rightarrow> bool" where
  "valid_perm perm = (\<forall>n. mset (perm n) = mset [0..<n])"

definition take_rows :: "'a list \<Rightarrow> nat list \<Rightarrow> 'a list" where
  "take_rows df positions = map (\<lambda>i. df ! i) positions"

definition df_sample :: "(nat \<Rightarrow> nat list) \<Rightarrow> nat \<Rightarrow> 'a list \<Rightarrow> error + 'a list" where
  "df_sample perm n df =
     (if n > length df then Inl ValueError
      else Inr (take_rows df (take n (perm (length df)))))"

text \<open>
  The loop of line 188 over the models; the two lists of per-model tables are the
  accumulator.
\<close>

fun sampling_loop ::
  "(nat \<Rightarrow> nat list) \<Rightarrow> 'c result_row list \<Rightarrow> pystr list
     \<Rightarrow> 'c result_row list list \<times> 'c result_row list list
     \<Rightarrow> error + ('c result_row list list \<times> 'c result_row list list)" where
  "sampling_loop perm df [] acc = Inr acc"
| "sampling_loop perm df (model # models) (true_samples, false_samples) =
     (let subset = filter (\<lambda>r. Model r = model) df;
          correct_answers = filter (\<lambda>r. Is_Correct r = True) subset;
          incorrect_answers =
            filter (\<lambda>r. Is_Correct r = False \<and> \<not> str_contains (Model_Answer r) skip_marker) subset
      in case (if length correct_answers > 0
               then (case df_sample perm (min 30 (length correct_answers)) correct_answers of
                       Inl e \<Rightarrow> Inl e
                     | Inr s \<Rightarrow> Inr (true_samples @ [s]))
               else Inr true_samples) of
           Inl e \<Rightarrow> Inl e
         | Inr true_samples' \<Rightarrow>
             sampling_loop perm df models
               (true_samples',
                if length incorrect_answers > 0 then false_samples @ [incorrect_answers]
                else false_samples))"

text \<open>\<^verbatim>\<open>pd.concat(dfs, ignore_index=True) if dfs else pd.DataFrame()\<close>.\<close>

definition concat_frames :: "'a list list \<Rightarrow> 'a frame" where
  "concat_frames dfs = (if dfs \<noteq> [] then DataFrame (concat dfs) else Empty_DataFrame)"

text \<open>
  Lines 207 to 210 add the columns \<^verbatim>\<open>code\<close> and \<^verbatim>\<open>comment\<close> with no value. On
  \<^verbatim>\<open>pd.DataFrame()\<close> the table still has none of the result columns.
\<close>

definition add_code_comment :: "'c result_row frame \<Rightarrow> 'c coded_row frame" where
  "add_code_comment df =
     (case df of
        Empty_DataFrame \<Rightarrow> Empty_DataFrame
      | DataFrame rows \<Rightarrow>
          DataFrame (map (\<lambda>r. result_row.extend r (coded_row.fields Missing Missing)) rows))"

text \<open>
  \<^verbatim>\<open>sort_values(by=['Model','Exam_Type','Question_Type'], ascending=[True, True, False])\<close>:
  \<open>sorts_before a b\<close> when \<open>a\<close> must come before \<open>b\<close>; rows with equal keys keep their
  order. A table without the key columns raises \<^verbatim>\<open>KeyError\<close>.
\<close>

definition sorts_before :: "('c, 'z) result_row_scheme \<Rightarrow> ('c, 'z) result_row_scheme \<Rightarrow> bool" where
  "sorts_before a b =
     (Model a < Model b
      \<or> Model a = Model b
        \<and> (Exam_Type a < Exam_Type b
           \<or> Exam_Type a = Exam_Type b \<and> Question_Type b < Question_Type a))"

fun insort_row ::
  "('c, 'z) result_row_scheme \<Rightarrow> ('c, 'z) result_row_scheme list \<Rightarrow> ('c, 'z) result_row_scheme list" where
  "insort_row x [] = [x]"
| "insort_row x (y # ys) = (if sorts_before y x then y # insort_row x ys else x # y # ys)"

definition sort_values :: "('c, 'z) result_row_scheme frame \<Rightarrow> error + ('c, 'z) result_row_scheme list" where
  "sort_values df =
     (case df of
        Empty_DataFrame \<Rightarrow> Inl KeyError
      | DataFrame rows \<Rightarrow> Inr (foldr insort_row rows []))"

text \<open>The identifier \<^verbatim>\<open>f"S{i:03d}"\<close>: the decimal digits of \<open>i\<close>, padded with zeros to three.\<close>

function decimal_digits :: "nat \<Rightarrow> nat list" where
  "decimal_digits n = (if n < 10 then [n] else decimal_digits (n div 10) @ [n mod 10])"
  by pat_completeness auto
termination
  by (relation "measure id") auto

declare decimal_digits.simps [simp del]

definition format_03d :: "nat \<Rightarrow> pystr" where
  "format_03d i =
     (let digits = map (\<lambda>d. 48 + d) (decimal_digits i)
      in replicate (3 - length digits) 48 @ digits)"

definition sample_id :: "nat \<Rightarrow> pystr" where
  "sample_id i = 83 # format_03d i"

text \<open>The number an identifier shows: \<^verbatim>\<open>int(s[1:])\<close>.\<close>

definition id_number :: "pystr \<Rightarrow> nat" where
  "id_number s = digits_value (map (\<lambda>c. c - 48) (drop 1 s))"

text \<open>
  Lines 217 to 221: the rows get the identifiers of \<^verbatim>\<open>range(start, start + len(df))\<close>.
  When \<^verbatim>\<open>sort_values\<close> has returned the table has rows, so the guard
  \<^verbatim>\<open>not df.empty\<close> holds.
\<close>

definition add_sample_ids :: "nat \<Rightarrow> 'c coded_row list \<Rightarrow> 'c sample_row list" where
  "add_sample_ids start df =
     map2 (\<lambda>r i. coded_row.extend r (sample_row.fields (sample_id i))) df
       [start..<start + length df]"

definition create_samples ::
  "(nat \<Rightarrow> nat list) \<Rightarrow> 'c result_row frame \<Rightarrow> error + ('c sample_row list \<times> 'c sample_row list)" where
  "create_samples perm df =
     (case df of
        Empty_DataFrame \<Rightarrow> Inl KeyError
      | DataFrame rows \<Rightarrow>
          let models = unique (map Model rows) in
          case sampling_loop perm rows models ([], []) of
            Inl e \<Rightarrow> Inl e
          | Inr (true_samples, false_samples) \<Rightarrow>
              (case sort_values (add_code_comment (concat_frames true_samples)) of
                 Inl e \<Rightarrow> Inl e
               | Inr true_samples_df \<Rightarrow>
                   (case sort_values (add_code_comment (concat_frames false_samples)) of
                      Inl e \<Rightarrow> Inl e
                    | Inr false_samples_df \<Rightarrow>
                        Inr (add_sample_ids 1 true_samples_df,
                             add_sample_ids (length true_samples_df + 1) false_samples_df))))"

subsection \<open>Reliability subset and rater batches (lines 257 to 348)\<close>

text \<open>Line 257 selects fifteen columns: the confidence column is dropped.\<close>

definition select_columns :: "'c sample_row \<Rightarrow> unit sample_row" where
  "select_columns r =
     \<lparr> Question_ID = Question_ID r, Question = Question r, Selections = Selections r,
       Correct_Answer = Correct_Answer r, Model_Answer = Model_Answer r,
       Model_Confidence = (), Official_Explanation = Official_Explanation r,
       Model_Explanation = Model_Explanation r, Model = Model r,
       Condition = Condition r, Exam_Type = Exam_Type r, Question_Type = Question_Type r,
       Is_Correct = Is_Correct r, code = code r, comment = comment r,
       Sample_ID = Sample_ID r \<rparr>"

text \<open>Lines 281 and 325 keep the nine columns of the raters' files.\<close>

definition rater_columns :: "('c, 'z) sample_row_scheme \<Rightarrow> rater_row" where
  "rater_columns r =
     \<lparr> rater_row.Sample_ID = Sample_ID r, rater_row.Question = Question r,
       rater_row.Selections = Selections r, rater_row.Correct_Answer = Correct_Answer r,
       rater_row.Model_Answer = Model_Answer r,
       rater_row.Official_Explanation = Official_Explanation r,
       rater_row.Model_Explanation = Model_Explanation r,
       rater_row.code = code r, rater_row.comment = comment r \<rparr>"

text \<open>Lines 277 and 281: thirty rows drawn with seed 1, then the nine columns.\<close>

definition reliability_sample ::
  "(nat \<Rightarrow> nat list) \<Rightarrow> ('c, 'z) sample_row_scheme list \<Rightarrow> error + rater_row list" where
  "reliability_sample perm1 samples =
     (case df_sample perm1 30 samples of
        Inl e \<Rightarrow> Inl e
      | Inr reliability \<Rightarrow> Inr (map rater_columns reliability))"

text \<open>Line 310: the rows whose identifier is not among the reliability identifiers.\<close>

definition samples_rater ::
  "('c, 'z) sample_row_scheme list \<Rightarrow> rater_row list \<Rightarrow> ('c, 'z) sample_row_scheme list" where
  "samples_rater samples reliability =
     filter (\<lambda>r. Sample_ID r \<notin> set (map rater_row.Sample_ID reliability)) samples"

text \<open>
  Lines 321 and 325: \<^verbatim>\<open>sample(frac=1, random_state=77)\<close> takes all the rows in the
  order of the permutation of seed 77; then the nine columns.
\<close>

definition shuffle_rater ::
  "(nat \<Rightarrow> nat list) \<Rightarrow> ('c, 'z) sample_row_scheme list \<Rightarrow> rater_row list" where
  "shuffle_rater perm77 df =
     map rater_columns (take_rows df (take (length df) (perm77 (length df))))"

text \<open>\<^verbatim>\<open>df.iloc[start:stop]\<close> for \<open>0 \<le> start \<le> stop\<close>; a slice past the end is cut.\<close>

definition iloc :: "'a list \<Rightarrow> nat \<Rightarrow> nat \<Rightarrow> 'a list" where
  "iloc df start stop = take (stop - start) (drop start df)"

definition batch_size :: nat where
  "batch_size = 100"

text \<open>Lines 336 to 343: the tables written to the batch files, in the order of the files.\<close>

definition export_batches :: "'a list \<Rightarrow> 'a list list" where
  "export_batches samples_rater_df =
     (let num_batches = length samples_rater_df div batch_size + 1
      in map (\<lambda>i. let start_idx = i * batch_size;
                      end_idx = start_idx + batch_size
                  in iloc samples_rater_df start_idx end_idx)
           [0..<num_batches])"

text \<open>
  The cells from line 257 to line 348 for one of the two sample sets: the reliability
  file and the batch files.
\<close>

definition rater_files ::
  "(nat \<Rightarrow> nat list) \<Rightarrow> (nat \<Rightarrow> nat list) \<Rightarrow> 'c sample_row list
     \<Rightarrow> error + (rater_row list \<times> rater_row list list)" where
  "rater_files perm1 perm77 samples_df =
     (let samples = map select_columns samples_df in
      case reliability_sample perm1 samples of
        Inl e \<Rightarrow> Inl e
      | Inr reliability \<Rightarrow>
          Inr (reliability, export_batches (shuffle_rater perm77 (samples_rater samples reliability))))"

subsection \<open>Label reconciliation (lines 383 to 396)\<close>

text \<open>
  The raters' columns of a labelled file; a value is missing (\<open>None\<close>) or a label.
  The reconciliation reads no other column.
\<close>

record 'v ratings =
  Zia :: "'v option"
  Miao :: "'v option"
  Sitao :: "'v option"
  Cao :: "'v option"

record 'v labeled = "'v ratings" +
  label :: "'v option"

definition notna :: "'v option \<Rightarrow> bool" where
  "notna v = (v \<noteq> None)"

definition label_correct :: "'v ratings \<Rightarrow> 'v option" where
  "label_correct row = (if notna (Zia row) then Zia row else Miao row)"

definition label_incorrect :: "'v ratings \<Rightarrow> 'v option" where
  "label_incorrect row =
     (if notna (Sitao row) then Sitao row
      else (if notna (Cao row) then Cao row
            else (if notna (Miao row) then Miao row else Zia row)))"

text \<open>\<^verbatim>\<open>df['label'] = df.apply(f, axis=1)\<close>.\<close>

definition add_label :: "('v ratings \<Rightarrow> 'v option) \<Rightarrow> 'v ratings list \<Rightarrow> 'v labeled list" where
  "add_label f df = map (\<lambda>row. ratings.extend row (labeled.fields (f row))) df"

text \<open>Lines 395 and 396 print the rows whose label is missing.\<close>

definition missing_labels :: "'v labeled list \<Rightarrow> 'v labeled list" where
  "missing_labels df = filter (\<lambda>row. \<not> notna (label row)) df"

text \<open>
  The specification's reconciliation: the first value that is not missing, in the
  order of priority; missing when every value is.
\<close>

fun first_non_missing :: "'v option list \<Rightarrow> 'v option" where
  "first_non_missing [] = None"
| "first_non_missing (None # vs) = first_non_missing vs"
| "first_non_missing (Some v # vs) = Some v"

subsection \<open>Notions for the statements\<close>

text \<open>
  The pieces of \<^verbatim>\<open>create_samples\<close> by name: a row with the two empty label columns;
  the correct and the eligible incorrect answers of a model; the sample drawn from a
  model's correct answers; and the two lists of per-model tables that the loop builds.
\<close>

definition add_columns :: "'c result_row \<Rightarrow> 'c coded_row" where
  "add_columns r = result_row.extend r (coded_row.fields Missing Missing)"

definition correct_answers_of :: "'c result_row list \<Rightarrow> pystr \<Rightarrow> 'c result_row list" where
  "correct_answers_of df model =
     filter (\<lambda>r. Is_Correct r = True) (filter (\<lambda>r. Model r = model) df)"

definition incorrect_answers_of :: "'c result_row list \<Rightarrow> pystr \<Rightarrow> 'c result_row list" where
  "incorrect_answers_of df model =
     filter (\<lambda>r. Is_Correct r = False \<and> \<not> str_contains (Model_Answer r) skip_marker)
       (filter (\<lambda>r. Model r = model) df)"

definition model_sample :: "(nat \<Rightarrow> nat list) \<Rightarrow> 'c result_row list \<Rightarrow> pystr \<Rightarrow> 'c result_row list" where
  "model_sample perm df model =
     take_rows (correct_answers_of df model)
       (take (min 30 (length (correct_answers_of df model)))
          (perm (length (correct_answers_of df model))))"

definition true_tables :: "(nat \<Rightarrow> nat list) \<Rightarrow> 'c result_row list \<Rightarrow> 'c result_row list list" where
  "true_tables perm df =
     map (model_sample perm df)
       (filter (\<lambda>m. correct_answers_of df m \<noteq> []) (unique (map Model df)))"

definition false_tables :: "'c result_row list \<Rightarrow> 'c result_row list list" where
  "false_tables df =
     map (incorrect_answers_of df)
       (filter (\<lambda>m. incorrect_answers_of df m \<noteq> []) (unique (map Model df)))"

subsection \<open>Example inputs\<close>

text \<open>Two rated rows: one rated by two raters, one rated by nobody.\<close>

definition example_ratings :: "string ratings list" where
  "example_ratings =
     [\<lparr> Zia = Some ''a'', Miao = Some ''x'', Sitao = None, Cao = None \<rparr>,
      \<lparr> Zia = None, Miao = None, Sitao = None, Cao = None \<rparr>]"

text \<open>
  Two permutations for the examples (for a table of one row every generator gives the
  first), a result row, and a sample set of thirty-one rows.
\<close>

definition identity_perm :: "nat \<Rightarrow> nat list" where
  "identity_perm n = [0..<n]"

definition reversed_perm :: "nat \<Rightarrow> nat list" where
  "reversed_perm n = rev [0..<n]"

definition example_result :: "pystr \<Rightarrow> pystr option \<Rightarrow> pystr option \<Rightarrow> (pyfloat option) result_row" where
  "example_result model answer key =
     \<lparr> Question_ID = PyInt 1, Question = Str (ascii ''Q''), Selections = Str (ascii ''A B C D''),
       Correct_Answer = key, Model_Answer = answer, Model_Confidence = Some (Finite 90),
       Official_Explanation = Missing, Model_Explanation = Missing, Model = model,
       Condition = ascii ''condition1'', Exam_Type = ascii ''policy'',
       Question_Type = ascii ''single'', Is_Correct = answers_equal answer key \<rparr>"

definition example_samples :: "(pyfloat option) sample_row list" where
  "example_samples =
     add_sample_ids 1
       (map (\<lambda>r. result_row.extend r (coded_row.fields Missing Missing))
          (replicate 31 (example_result (ascii ''qwen'') (Some (ascii ''A'')) (Some (ascii ''A'')))))"

text \<open>
  A table of two models with a correct answer, a wrong answer, a skipped question and a
  missing answer; and a table of one correct and a thousand incorrect answers.
\<close>

definition example_table :: "(pyfloat option) result_row list" where
  "example_table =
     [example_result (ascii ''qwen'') (Some (ascii ''A'')) (Some (ascii ''A'')),
      example_result (ascii ''qwen'') (Some (ascii ''BD'')) (Some (ascii ''BC'')),
      example_result (ascii ''kimi'') (Some skip_marker) (Some (ascii ''C'')),
      example_result (ascii ''kimi'') None (Some (ascii ''D''))]"

definition big_table :: "(pyfloat option) result_row list" where
  "big_table =
     example_result (ascii ''qwen'') (Some (ascii ''A'')) (Some (ascii ''A''))
     # replicate 1000 (example_result (ascii ''qwen'') (Some (ascii ''B'')) (Some (ascii ''A'')))"

text \<open>
  A table of thirty-five correct answers of one model, and a table of seven wrong
  answers of one model, none of them a skip.
\<close>

definition all_correct_table :: "(pyfloat option) result_row list" where
  "all_correct_table =
     replicate 35 (example_result (ascii ''qwen'') (Some (ascii ''A'')) (Some (ascii ''A'')))"

definition all_incorrect_table :: "(pyfloat option) result_row list" where
  "all_incorrect_table =
     replicate 7 (example_result (ascii ''qwen'') (Some (ascii ''B'')) (Some (ascii ''A'')))"

text \<open>
  Three files as \<^verbatim>\<open>glob\<close> may find them: one of condition 1 with a lower-case answer,
  one of condition 2, and one whose name has too few parts; and the table loaded from
  them.
\<close>

definition example_csv_row :: "pystr option \<Rightarrow> pystr option \<Rightarrow> cell \<Rightarrow> cell csv_row" where
  "example_csv_row answer key confidence =
     \<lparr> Question_ID = PyInt 1, Question = Str (ascii ''Q''), Selections = Str (ascii ''A B C D''),
       Correct_Answer = key, Model_Answer = answer, Model_Confidence = confidence,
       Official_Explanation = Missing, Model_Explanation = Missing, Model = ascii ''qwen'' \<rparr>"

definition example_files :: "(pystr \<times> cell csv_row list) list" where
  "example_files =
     [(ascii ''results_policy_qwen_condition_1_single.csv'',
       [example_csv_row (Some (ascii ''a, b'')) (Some (ascii ''AB'')) (Str (ascii ''85%''))]),
      (ascii ''results_policy_qwen_condition_2_single.csv'',
       [example_csv_row (Some (ascii ''C'')) (Some (ascii ''C'')) Missing]),
      (ascii ''results_notes.csv'', [])]"

definition example_loaded :: "(pyfloat option) result_row list" where
  "example_loaded =
     [\<lparr> Question_ID = PyInt 1, Question = Str (ascii ''Q''), Selections = Str (ascii ''A B C D''),
        Correct_Answer = Some (ascii ''AB''), Model_Answer = Some (ascii ''ab''),
        Model_Confidence = Some (Finite 85),
        Official_Explanation = Missing, Model_Explanation = Missing, Model = ascii ''qwen'',
        Condition = ascii ''condition1'', Exam_Type = ascii ''policy'',
        Question_Type = ascii ''single'', Is_Correct = False \<rparr>]"

section \<open>Properties\<close>

subsection \<open>Cleaning\<close>

lemma join_singletons: "join [] (map (\<lambda>c. [c]) xs) = xs"
  by (induction xs rule: induct_list012) auto

lemma comprehension_filter: "[[c]. c \<leftarrow> s, P c] = map (\<lambda>c. [c]) (filter P s)"
  by (induction s) auto

lemma join_comprehension: "join [] [[c]. c \<leftarrow> s, P c] = filter P s"
  by (simp add: comprehension_filter join_singletons)

lemma ascii_exact_ascii_db: "ascii_exact ascii_db"
  by (simp add: ascii_exact_def)

lemma clean_answer_filter: "clean_answer U (Some s) = Some (filter (isalpha U) s)"
  by (simp add: clean_answer_def join_comprehension)

text \<open>
  C8. \<^verbatim>\<open>clean_answer\<close> passes a missing value through unchanged; on a string it
  returns exactly the letters of the string, in their order, every other character
  stripped; and \<^verbatim>\<open>clean_answer("A, B, C") == "ABC"\<close>.
\<close>

theorem clean_answer_keeps_letters:
  "clean_answer U None = None
   \<and> clean_answer U (Some s) = Some (filter (isalpha U) s)
   \<and> (ascii_exact U \<longrightarrow> clean_answer U (Some (ascii ''A, B, C'')) = Some (ascii ''ABC''))"
proof (intro conjI impI)
  show "clean_answer U None = None"
    by (simp add: clean_answer_def)
  show "clean_answer U (Some s) = Some (filter (isalpha U) s)"
    by (rule clean_answer_filter)
  assume "ascii_exact U"
  then have "filter (isalpha U) (ascii ''A, B, C'') = ascii ''ABC''"
    by (simp add: ascii_exact_def ascii_db_def ascii_def)
  then show "clean_answer U (Some (ascii ''A, B, C'')) = Some (ascii ''ABC'')"
    by (simp add: clean_answer_filter)
qed

theorem clean_answer_keeps_letters_witness:
  "clean_answer ascii_db None = None
   \<and> clean_answer ascii_db (Some (ascii ''a1, B?'')) = Some (filter (isalpha ascii_db) (ascii ''a1, B?''))
   \<and> ascii_exact ascii_db
   \<and> clean_answer ascii_db (Some (ascii ''A, B, C'')) = Some (ascii ''ABC'')"
  using clean_answer_keeps_letters [of ascii_db "ascii ''a1, B?''"] ascii_exact_ascii_db
  by blast

lemma foldl_digits_shift:
  "foldl (\<lambda>a d. 10 * a + d) a ys = a * 10 ^ length ys + foldl (\<lambda>a d. 10 * a + d) (0::nat) ys"
proof (induction ys rule: rev_induct)
  case Nil
  show ?case by simp
next
  case (snoc y ys)
  have "foldl (\<lambda>a d. 10 * a + d) a (ys @ [y]) = 10 * foldl (\<lambda>a d. 10 * a + d) a ys + y"
    by simp
  also have "\<dots> = 10 * (a * 10 ^ length ys + foldl (\<lambda>a d. 10 * a + d) 0 ys) + y"
    using snoc.IH by presburger
  also have "\<dots> = a * 10 ^ length (ys @ [y]) + foldl (\<lambda>a d. 10 * a + d) 0 (ys @ [y])"
    by (simp add: algebra_simps)
  finally show ?case .
qed

lemma digits_value_append:
  "digits_value (xs @ ys) = digits_value xs * 10 ^ length ys + digits_value ys"
  unfolding digits_value_def foldl_append by (rule foldl_digits_shift)

lemma those_map_cases:
  "those (map f xs) = (if list_all (\<lambda>x. f x \<noteq> None) xs then Some (map (\<lambda>x. the (f x)) xs) else None)"
  by (induction xs) (auto split: option.splits)

lemma list_all_not_point:
  "46 \<notin> set xs \<Longrightarrow> list_all (\<lambda>c. c = 46 \<or> decimal U c \<noteq> None) xs = list_all (\<lambda>c. decimal U c \<noteq> None) xs"
  by (induction xs) auto

lemma filter_not_point: "(46::nat) \<notin> set xs \<Longrightarrow> filter (\<lambda>c. c \<noteq> 46) xs = xs"
  by (induction xs) auto

lemma list_ex_not_point: "(46::nat) \<notin> set xs \<Longrightarrow> list_ex (\<lambda>c. c \<noteq> 46) xs = (xs \<noteq> [])"
  by (cases xs) auto

lemma count_point_zero: "(46::nat) \<notin> set xs \<Longrightarrow> count_list xs 46 = 0"
  by (induction xs) auto

lemma count_point_pos: "(46::nat) \<in> set xs \<Longrightarrow> 0 < count_list xs 46"
  by (induction xs) auto

lemma decimal_sum:
  "(of_nat (a * 10 ^ k + b) :: rat) / 10 ^ k = of_nat a + of_nat b / 10 ^ k"
  by (simp add: field_simps)

text \<open>
  Rounding to a double: the exponent chosen brackets the number, a number of absolute
  value \<open>2\<^sup>1\<^sup>0\<^sup>2\<^sup>4\<close> or more overflows, and an integer of absolute value at most \<open>2\<^sup>5\<^sup>3\<close>
  is a double.
\<close>

lemma pow2_powi: "pow2 e = 2 powi e"
  by (simp add: pow2_def power_int_def field_simps)

lemma pow2_pos [simp]: "0 < pow2 e"
  by (simp add: pow2_powi)

lemma pow2_add: "pow2 (a + b) = pow2 a * pow2 b"
  by (simp add: pow2_powi power_int_add)

lemma pow2_diff: "pow2 (a - b) = pow2 a / pow2 b"
  by (simp add: pow2_powi power_int_diff)

lemma pow2_mono: "a \<le> b \<Longrightarrow> pow2 a \<le> pow2 b"
  by (simp add: pow2_powi power_int_increasing)

lemma pow2_strict_mono: "a < b \<Longrightarrow> pow2 a < pow2 b"
  by (simp add: pow2_powi power_int_strict_increasing)

lemma pow2_nat: "pow2 (int n) = 2 ^ n"
  by (simp add: pow2_def)

lemma bitlen_pow2_bounds:
  assumes "0 < p"
  shows "pow2 (bitlen p - 1) \<le> of_int p" and "of_int p < pow2 (bitlen p)"
proof -
  have b: "2 ^ nat (bitlen p - 1) \<le> p" "p < 2 ^ nat (bitlen p)"
    using bitlen_bounds [OF assms] by simp_all
  have pos: "0 < bitlen p"
  proof (rule ccontr)
    assume "\<not> 0 < bitlen p"
    then have "nat (bitlen p) = 0" by simp
    with b(2) assms show False by simp
  qed
  have "(2::rat) ^ nat (bitlen p - 1) = of_int (2 ^ nat (bitlen p - 1))"
    by simp
  also have "\<dots> \<le> of_int p"
    using b(1) by (simp only: of_int_le_iff)
  finally show "pow2 (bitlen p - 1) \<le> of_int p"
    using pos by (simp add: pow2_def)
  have "(of_int p :: rat) < of_int (2 ^ nat (bitlen p))"
    using b(2) by (simp only: of_int_less_iff)
  then show "of_int p < pow2 (bitlen p)"
    using pos by (simp add: pow2_def)
qed

lemma binary_exponent_bounds:
  assumes "0 < a"
  shows "pow2 (binary_exponent a) \<le> a" and "a < pow2 (binary_exponent a + 1)"
proof -
  obtain p d where pd: "quotient_of a = (p, d)"
    by (cases "quotient_of a")
  have d: "0 < d" using quotient_of_denom_pos [OF pd] .
  have a: "a = of_int p / of_int d" using quotient_of_div [OF pd] .
  have p: "0 < p" using assms d by (simp add: a zero_less_divide_iff)
  note P = bitlen_pow2_bounds [OF p] and D = bitlen_pow2_bounds [OF d]
  have dr: "(0::rat) < of_int d" and pr: "(0::rat) \<le> of_int p"
    using d p by simp_all
  have "of_int p / of_int d < pow2 (bitlen p) / pow2 (bitlen d - 1)"
    using pr P(2) _ D(1) by (rule frac_less) simp
  then have upper: "a < pow2 (bitlen p - bitlen d + 1)"
    by (simp add: a pow2_diff pow2_add)
  have "pow2 (bitlen p - 1) / pow2 (bitlen d) < of_int p / of_int d"
    using _ P(1) dr D(2) by (rule frac_less2) simp
  then have lower: "pow2 (bitlen p - bitlen d - 1) < a"
    by (simp add: a pow2_diff mult.commute)
  show "pow2 (binary_exponent a) \<le> a"
    using lower by (simp add: binary_exponent_def pd Let_def)
  show "a < pow2 (binary_exponent a + 1)"
    using upper by (auto simp: binary_exponent_def pd Let_def)
qed

lemma binary_exponent_ge:
  assumes "pow2 k \<le> a"
  shows "k \<le> binary_exponent a"
proof (rule ccontr)
  assume "\<not> k \<le> binary_exponent a"
  then have "binary_exponent a + 1 \<le> k" by simp
  then have "pow2 (binary_exponent a + 1) \<le> pow2 k" by (rule pow2_mono)
  moreover have "0 < a" using assms pow2_pos [of k] by linarith
  ultimately show False
    using binary_exponent_bounds(2) [of a] assms by linarith
qed

lemma binary_exponent_less:
  assumes "0 < a" "a < pow2 k"
  shows "binary_exponent a < k"
proof (rule ccontr)
  assume "\<not> binary_exponent a < k"
  then have "pow2 k \<le> pow2 (binary_exponent a)" by (simp add: pow2_mono)
  then show False
    using binary_exponent_bounds(1) [OF assms(1)] assms(2) by linarith
qed

lemma round_half_even_ge: "\<lfloor>x\<rfloor> \<le> round_half_even x"
  by (simp add: round_half_even_def Let_def)

lemma round_half_even_of_int [simp]: "round_half_even (of_int n) = n"
  by (simp add: round_half_even_def)

lemma round_double_overflow:
  assumes "2 ^ 1024 \<le> \<bar>q\<bar>"
  shows "round_double q = (if 0 < q then PosInf else NegInf)"
proof -
  define a where "a = \<bar>q\<bar>"
  define e where "e = binary_exponent a"
  have big: "pow2 1024 \<le> a"
    using assms by (simp add: a_def pow2_def)
  have a0: "0 < a" using big pow2_pos [of 1024] by linarith
  have q0: "q \<noteq> 0" using a0 by (auto simp: a_def)
  have e: "1024 \<le> e"
    unfolding e_def using big by (rule binary_exponent_ge)
  have m: "max e (- 1022) = e" using e by simp
  have le: "pow2 e \<le> a"
    unfolding e_def using a0 by (rule binary_exponent_bounds)
  have "pow2 e / pow2 (e - 52) = pow2 (e - (e - 52))"
    by (simp only: pow2_diff)
  then have "(2::rat) ^ 52 = pow2 e / pow2 (e - 52)"
    by (simp add: pow2_def)
  also have "\<dots> \<le> a / pow2 (e - 52)"
    by (rule divide_right_mono [OF le less_imp_le [OF pow2_pos]])
  finally have "(of_int (2 ^ 52) :: rat) \<le> a / pow2 (e - 52)"
    by simp
  then have "2 ^ 52 \<le> \<lfloor>a / pow2 (e - 52)\<rfloor>"
    by (simp only: le_floor_iff)
  then have "2 ^ 52 \<le> round_half_even (a / pow2 (e - 52))"
    using round_half_even_ge [of "a / pow2 (e - 52)"] by linarith
  then have "(of_int (2 ^ 52) :: rat) \<le> of_int (round_half_even (a / pow2 (e - 52)))"
    by (simp only: of_int_le_iff)
  then have "2 ^ 52 * pow2 (e - 52) \<le> of_int (round_half_even (a / pow2 (e - 52))) * pow2 (e - 52)"
    by (simp add: mult_right_mono)
  moreover have "2 ^ 52 * pow2 (e - 52) = pow2 e"
    using pow2_add [of 52 "e - 52"] by (simp add: pow2_def)
  moreover have "pow2 1024 \<le> pow2 e"
    using e by (rule pow2_mono)
  ultimately have "2 ^ 1024 \<le> of_int (round_half_even (a / pow2 (e - 52))) * pow2 (e - 52)"
    by (simp add: pow2_def)
  then show ?thesis
    using q0 m by (simp add: round_double_def Let_def flip: a_def e_def)
qed

lemma round_double_int_exact:
  assumes "\<bar>n\<bar> \<le> 2 ^ 53"
  shows "round_double (of_int n) = Finite (of_int n)"
proof (cases "n = 0")
  case True
  then show ?thesis by (simp add: round_double_def)
next
  case False
  define a :: rat where "a = \<bar>of_int n\<bar>"
  define e where "e = binary_exponent a"
  have a: "a = of_int \<bar>n\<bar>" by (simp add: a_def)
  have a1: "pow2 0 \<le> a" using False by (simp add: a pow2_def)
  have a0: "0 < a" using False by (simp add: a)
  have e0: "0 \<le> e" unfolding e_def using a1 by (rule binary_exponent_ge)
  have m: "max e (- 1022) = e" using e0 by simp
  have "(of_int \<bar>n\<bar> :: rat) \<le> of_int (2 ^ 53)"
    using assms by (simp only: of_int_le_iff)
  then have "a \<le> pow2 53"
    by (simp add: a pow2_def)
  then have "a < pow2 54"
    using pow2_strict_mono [of 53 54] by linarith
  then have e54: "e < 54" unfolding e_def using a0 by (simp add: binary_exponent_less)
  have nov: "\<not> 2 ^ 1024 \<le> a"
    using \<open>a \<le> pow2 53\<close> by (simp add: pow2_def)
  have v: "of_int (round_half_even (a / pow2 (e - 52))) * pow2 (e - 52) = a"
  proof (cases "e \<le> 52")
    case True
    have ulp: "pow2 (e - 52) = 1 / 2 ^ nat (52 - e)"
      using True by (simp add: pow2_def)
    have "a / pow2 (e - 52) = of_int (\<bar>n\<bar> * 2 ^ nat (52 - e))"
      by (simp add: ulp a)
    then have "round_half_even (a / pow2 (e - 52)) = \<bar>n\<bar> * 2 ^ nat (52 - e)"
      by (simp only: round_half_even_of_int)
    then show ?thesis
      by (simp add: ulp a)
  next
    case False
    then have e53: "e = 53" using e54 by simp
    have "pow2 53 \<le> a"
      using binary_exponent_bounds(1) [OF a0] by (simp add: e53 flip: e_def)
    with \<open>a \<le> pow2 53\<close> have a53: "a = 2 ^ 53" by (simp add: pow2_def)
    show ?thesis
      by (simp add: e53 a53 pow2_def round_half_even_def)
  qed
  show ?thesis
    using \<open>n \<noteq> 0\<close> m v nov
    by (simp add: round_double_def Let_def flip: a_def e_def) (simp add: a_def)
qed

lemma round_double_tenth:
  "round_double (1 / 10) = Finite (3602879701896397 / 36028797018963968)"
proof -
  have q: "quotient_of (1 / 10) = (1, 10)"
    by code_simp
  have e: "binary_exponent (1 / 10) = - 4"
    by (simp add: binary_exponent_def q pow2_def compute_bitlen)
  have "\<lfloor>(36028797018963968::rat) / 5\<rfloor> = 7205759403792793"
    by (rule floor_unique) simp_all
  then have "round_half_even (36028797018963968 / 5) = 7205759403792794"
    by (simp add: round_half_even_def Let_def)
  then show ?thesis
    by (simp add: round_double_def e pow2_def Let_def)
qed

lemma py_float_no_point:
  assumes "46 \<notin> set t"
  shows "py_float U t =
           (case decimal_number U t of Some v \<Rightarrow> Inr (round_double v) | None \<Rightarrow> Inl ValueError)"
proof -
  have tw: "takeWhile (\<lambda>c. c \<noteq> 46) t = t" and dw: "dropWhile (\<lambda>c. c \<noteq> 46) t = []"
    using assms by (auto simp: takeWhile_eq_all_conv)
  show ?thesis
    using assms
    by (simp add: py_float_def decimal_number_def tw dw those_map_cases list_all_not_point
        filter_not_point list_ex_not_point count_point_zero digits_value_def del: not_None_eq)
qed

lemma py_float_point:
  assumes "46 \<notin> set w"
  shows "py_float U (w @ 46 # f) =
           (case decimal_number U (w @ 46 # f) of
              Some v \<Rightarrow> Inr (round_double v) | None \<Rightarrow> Inl ValueError)"
proof -
  have tw: "takeWhile (\<lambda>c. c \<noteq> 46) (w @ 46 # f) = w"
    and dw: "dropWhile (\<lambda>c. c \<noteq> 46) (w @ 46 # f) = 46 # f"
    using assms by (induction w) auto
  show ?thesis
  proof (cases "46 \<in> set f")
    case True
    have "count_list (w @ 46 # f) 46 = count_list w 46 + (1 + count_list f 46)"
      by simp
    with count_point_pos [OF True] have nle: "\<not> count_list (w @ 46 # f) 46 \<le> 1"
      by linarith
    have "decimal_number U (w @ 46 # f) = None"
      unfolding decimal_number_def by (rule if_not_P) (use nle in blast)
    with True show ?thesis
      by (simp add: py_float_def tw dw)
  next
    case False
    have cnt: "count_list (w @ 46 # f) 46 \<le> 1"
      using assms False by (simp add: count_point_zero)
    have val: "(of_nat (digits_value (map (\<lambda>c. the (decimal U c)) w @ map (\<lambda>c. the (decimal U c)) f)) :: rat)
                 / 10 ^ length f
               = of_nat (digits_value (map (\<lambda>c. the (decimal U c)) w))
                 + of_nat (digits_value (map (\<lambda>c. the (decimal U c)) f)) / 10 ^ length f"
      using decimal_sum [of "digits_value (map (\<lambda>c. the (decimal U c)) w)" "length f"
          "digits_value (map (\<lambda>c. the (decimal U c)) f)"]
      by (simp add: digits_value_append)
    show ?thesis
      using assms False cnt val
      by (auto simp: py_float_def decimal_number_def tw dw those_map_cases list_all_not_point
          filter_not_point list_ex_not_point simp del: not_None_eq)
  qed
qed

lemma py_float_decimal_number:
  "py_float U t =
     (case decimal_number U t of Some v \<Rightarrow> Inr (round_double v) | None \<Rightarrow> Inl ValueError)"
proof (cases "46 \<in> set t")
  case False
  then show ?thesis by (rule py_float_no_point)
next
  case True
  then obtain w f where "t = w @ 46 # f" "46 \<notin> set w"
    by (auto dest: split_list_first)
  then show ?thesis using py_float_point by simp
qed

text \<open>
  On a string \<^verbatim>\<open>clean_confidence_value\<close> returns: the double nearest to the decimal
  number of what is left after stripping every character that is neither a digit nor a
  point, or a missing value when that is no decimal number.
\<close>

lemma clean_confidence_value_Str:
  "clean_confidence_value U (Str s) =
     Inr (map_option round_double (decimal_number U (filter (\<lambda>c. isdigit U c \<or> c = 46) s)))"
  by (simp add: join_comprehension py_float_decimal_number split: option.split)

lemma clean_confidence_value_percent:
  "clean_confidence_value ascii_db (Str (ascii ''85%'')) = Inr (Some (Finite 85))"
proof -
  have "filter (\<lambda>c. isdigit ascii_db c \<or> c = 46) (ascii ''85%'') = ascii ''85''"
    by (simp add: ascii_db_def ascii_def)
  moreover have "decimal_number ascii_db (ascii ''85'') = Some 85"
    by (simp add: decimal_number_def ascii_db_def ascii_def digits_value_def)
  moreover have "round_double 85 = Finite 85"
    using round_double_int_exact [of 85] by simp
  ultimately show ?thesis
    by (simp add: clean_confidence_value_Str del: clean_confidence_value.simps(2))
qed

lemma clean_confidence_value_letters:
  "clean_confidence_value ascii_db (Str (ascii ''abc'')) = Inr None"
proof -
  have "filter (\<lambda>c. isdigit ascii_db c \<or> c = 46) (ascii ''abc'') = []"
    by (simp add: ascii_db_def ascii_def)
  moreover have "decimal_number ascii_db [] = None"
    by (simp add: decimal_number_def)
  ultimately show ?thesis
    by (simp add: clean_confidence_value_Str del: clean_confidence_value.simps(2))
qed

text \<open>The value is a double: \<^verbatim>\<open>"0.1"\<close> gives the double nearest to one tenth.\<close>

lemma clean_confidence_value_rounds:
  "clean_confidence_value ascii_db (Str (ascii ''0.1'')) =
     Inr (Some (Finite (3602879701896397 / 36028797018963968)))"
proof -
  have "filter (\<lambda>c. isdigit ascii_db c \<or> c = 46) (ascii ''0.1'') = ascii ''0.1''"
    by (simp add: ascii_db_def ascii_def)
  moreover have "decimal_number ascii_db (ascii ''0.1'') = Some (1 / 10)"
    by (simp add: decimal_number_def ascii_db_def ascii_def digits_value_def)
  ultimately show ?thesis
    by (simp add: clean_confidence_value_Str round_double_tenth del: clean_confidence_value.simps(2))
qed

text \<open>A string of four hundred nines is too large for a double: the value is \<^verbatim>\<open>inf\<close>.\<close>

lemma digits_value_nines: "digits_value (replicate n 9) + 1 = 10 ^ n"
proof (induction n)
  case 0
  show ?case by (simp add: digits_value_def)
next
  case (Suc n)
  have "replicate (Suc n) (9::nat) = replicate n 9 @ [9]"
    by (simp add: replicate_append_same)
  then have "digits_value (replicate (Suc n) 9) = digits_value (replicate n 9) * 10 + 9"
    by (simp add: digits_value_append) (simp add: digits_value_def)
  with Suc show ?case by simp
qed

lemma clean_confidence_value_inf:
  "clean_confidence_value ascii_db (Str (replicate 400 57)) = Inr (Some PosInf)"
proof -
  have f: "filter (\<lambda>c. isdigit ascii_db c \<or> c = 46) (replicate 400 57) = replicate 400 57"
    by (simp add: ascii_db_def)
  have "digits_value (replicate 400 9) = 10 ^ 400 - 1"
    using digits_value_nines [of 400] by linarith
  then have d: "decimal_number ascii_db (replicate 400 57) = Some (of_nat (10 ^ 400 - 1))"
    by (simp add: decimal_number_def ascii_db_def list_all_iff list_ex_iff count_list_0_iff)
  have "round_double (of_nat (10 ^ 400 - 1)) = PosInf"
    by (simp add: round_double_overflow)
  with f d show ?thesis
    by (simp add: clean_confidence_value_Str del: clean_confidence_value.simps(2))
qed

text \<open>
  On an \<^verbatim>\<open>int\<close> that is a double the value is that number; on an \<^verbatim>\<open>int\<close> of absolute
  value \<open>2\<^sup>1\<^sup>0\<^sup>2\<^sup>4\<close> or more \<^verbatim>\<open>float\<close> raises \<^verbatim>\<open>OverflowError\<close>, which the handler of
  line 68 does not catch.
\<close>

lemma clean_confidence_value_PyInt:
  assumes "\<bar>n\<bar> \<le> 2 ^ 53"
  shows "clean_confidence_value U (PyInt n) = Inr (Some (Finite (of_int n)))"
  by (simp add: int_float_def round_double_int_exact [OF assms])

lemma clean_confidence_value_OverflowError:
  assumes "2 ^ 1024 \<le> \<bar>n\<bar>"
  shows "clean_confidence_value U (PyInt n) = Inl OverflowError"
proof -
  have "(of_int (2 ^ 1024) :: rat) \<le> of_int \<bar>n\<bar>"
    using assms by (simp only: of_int_le_iff)
  then have "(2::rat) ^ 1024 \<le> \<bar>of_int n\<bar>"
    by simp
  then have "round_double (of_int n) = (if 0 < n then PosInf else NegInf)"
    by (simp add: round_double_overflow)
  then show ?thesis
    by (simp add: int_float_def)
qed

text \<open>
  C7. \<^verbatim>\<open>clean_confidence_value\<close> raises on the \<^verbatim>\<open>int\<close> \<open>10\<^sup>3\<^sup>0\<^sup>9\<close>: \<^verbatim>\<open>float\<close> raises
  \<^verbatim>\<open>OverflowError\<close>, the handler catches \<^verbatim>\<open>ValueError\<close> and \<^verbatim>\<open>TypeError\<close> only, and a
  column holding that number after \<^verbatim>\<open>"85%"\<close> is not cleaned, the exception ends the
  whole operation. On the other cells it returns: a missing cell gives a missing value,
  a \<^verbatim>\<open>float\<close> is returned as it is, a string gives the double nearest to the decimal
  number left after stripping, or a missing value when nothing parses; \<^verbatim>\<open>"85%"\<close> gives
  85.0 and \<^verbatim>\<open>"abc"\<close> gives a missing value.
\<close>

theorem clean_confidence_value_raises:
  "clean_confidence_value U (PyInt (10 ^ 309)) = Inl OverflowError
   \<and> apply_rows (clean_confidence_value U) [Str (ascii ''85%''), PyInt (10 ^ 309), Missing]
       = Inl OverflowError
   \<and> clean_confidence_value U Missing = Inr None
   \<and> clean_confidence_value U (PyFloat x) = Inr (Some x)
   \<and> clean_confidence_value U (Str s)
       = Inr (map_option round_double (decimal_number U (filter (\<lambda>c. isdigit U c \<or> c = 46) s)))
   \<and> clean_confidence_value ascii_db (Str (ascii ''85%'')) = Inr (Some (Finite 85))
   \<and> clean_confidence_value ascii_db (Str (ascii ''abc'')) = Inr None"
proof (intro conjI)
  have big: "clean_confidence_value U (PyInt (10 ^ 309)) = Inl OverflowError"
    by (rule clean_confidence_value_OverflowError) simp
  show "clean_confidence_value U (PyInt (10 ^ 309)) = Inl OverflowError"
    by (rule big)
  show "apply_rows (clean_confidence_value U) [Str (ascii ''85%''), PyInt (10 ^ 309), Missing]
          = Inl OverflowError"
    by (simp only: apply_rows.simps big clean_confidence_value_Str sum.case)
  show "clean_confidence_value U Missing = Inr None"
    by simp
  show "clean_confidence_value U (PyFloat x) = Inr (Some x)"
    by simp
  show "clean_confidence_value U (Str s)
          = Inr (map_option round_double (decimal_number U (filter (\<lambda>c. isdigit U c \<or> c = 46) s)))"
    by (rule clean_confidence_value_Str)
  show "clean_confidence_value ascii_db (Str (ascii ''85%'')) = Inr (Some (Finite 85))"
    by (rule clean_confidence_value_percent)
  show "clean_confidence_value ascii_db (Str (ascii ''abc'')) = Inr None"
    by (rule clean_confidence_value_letters)
qed

subsection \<open>Label reconciliation\<close>

lemma label_correct_first: "label_correct row = first_non_missing [Zia row, Miao row]"
  by (cases "Zia row"; cases "Miao row") (simp_all add: label_correct_def notna_def)

lemma label_incorrect_first:
  "label_incorrect row = first_non_missing [Sitao row, Cao row, Miao row, Zia row]"
  by (cases "Sitao row"; cases "Cao row"; cases "Miao row"; cases "Zia row")
    (simp_all add: label_incorrect_def notna_def)

lemma label_extend [simp]: "label (ratings.extend row (labeled.fields v)) = v"
  by (simp add: ratings.defs labeled.defs)

lemma missing_labels_add_label:
  "missing_labels (add_label f df) = add_label f (filter (\<lambda>row. f row = None) df)"
  by (induction df) (simp_all add: missing_labels_def add_label_def notna_def)

lemma label_correct_None: "label_correct r = None \<longleftrightarrow> Zia r = None \<and> Miao r = None"
  by (auto simp: label_correct_def notna_def)

lemma label_incorrect_None:
  "label_incorrect r = None \<longleftrightarrow> Sitao r = None \<and> Cao r = None \<and> Miao r = None \<and> Zia r = None"
  by (auto simp: label_incorrect_def notna_def)

lemma truncate_add_label: "map ratings.truncate (add_label f df) = df"
  by (induction df) (simp_all add: add_label_def ratings.defs labeled.defs)

lemma label_add_label: "map label (add_label f df) = map f df"
  by (simp add: add_label_def)

lemma truncate_missing_labels:
  "map ratings.truncate (missing_labels (add_label f df)) = filter (\<lambda>row. f row = None) df"
  by (simp only: missing_labels_add_label truncate_add_label)

lemma label_missing_labels: "r \<in> set (missing_labels df) \<Longrightarrow> label r = None"
  by (simp add: missing_labels_def notna_def)

text \<open>
  C5. The reconciliation keeps every row and gives it as label the first value that is
  not missing in the order Zia, Miao for the correct-set table and in the order Sitao,
  Cao, Miao, Zia for the incorrect-set table; a row holding missing, missing, \<open>x\<close> in
  that order gets \<open>x\<close>; and the rows printed by the check for missing labels are
  exactly the rows of the table whose raters' values are all missing, each with a
  missing label and not a default.
\<close>

theorem label_reconciliation:
  "label_correct row = first_non_missing [Zia row, Miao row]
   \<and> label_incorrect row = first_non_missing [Sitao row, Cao row, Miao row, Zia row]
   \<and> (Sitao row = None \<and> Cao row = None \<and> Miao row = Some x \<longrightarrow> label_incorrect row = Some x)
   \<and> map ratings.truncate (add_label label_correct df) = df
   \<and> map label (add_label label_correct df) = map (\<lambda>r. first_non_missing [Zia r, Miao r]) df
   \<and> map ratings.truncate (add_label label_incorrect df') = df'
   \<and> map label (add_label label_incorrect df')
       = map (\<lambda>r. first_non_missing [Sitao r, Cao r, Miao r, Zia r]) df'
   \<and> missing_labels (add_label label_correct df)
       = add_label label_correct (filter (\<lambda>r. Zia r = None \<and> Miao r = None) df)
   \<and> missing_labels (add_label label_incorrect df')
       = add_label label_incorrect
           (filter (\<lambda>r. Sitao r = None \<and> Cao r = None \<and> Miao r = None \<and> Zia r = None) df')
   \<and> map ratings.truncate (missing_labels (add_label label_correct df))
       = filter (\<lambda>r. Zia r = None \<and> Miao r = None) df
   \<and> map ratings.truncate (missing_labels (add_label label_incorrect df'))
       = filter (\<lambda>r. Sitao r = None \<and> Cao r = None \<and> Miao r = None \<and> Zia r = None) df'
   \<and> (\<forall>r\<in>set (missing_labels (add_label label_correct df)). label r = None)
   \<and> (\<forall>r\<in>set (missing_labels (add_label label_incorrect df')). label r = None)
   \<and> (Zia row = None \<and> Miao row = None \<longrightarrow> label_correct row = None)
   \<and> (Sitao row = None \<and> Cao row = None \<and> Miao row = None \<and> Zia row = None
        \<longrightarrow> label_incorrect row = None)"
proof -
  note c = label_correct_None and i = label_incorrect_None
  have "Sitao row = None \<and> Cao row = None \<and> Miao row = Some x \<longrightarrow> label_incorrect row = Some x"
    by (simp add: label_incorrect_def notna_def)
  moreover have "map ratings.truncate (add_label label_correct df) = df"
    and "map ratings.truncate (add_label label_incorrect df') = df'"
    by (rule truncate_add_label)+
  moreover have "map label (add_label label_correct df) = map (\<lambda>r. first_non_missing [Zia r, Miao r]) df"
    by (auto simp: label_add_label label_correct_first)
  moreover have "map label (add_label label_incorrect df')
       = map (\<lambda>r. first_non_missing [Sitao r, Cao r, Miao r, Zia r]) df'"
    by (auto simp: label_add_label label_incorrect_first)
  moreover have "missing_labels (add_label label_correct df)
       = add_label label_correct (filter (\<lambda>r. Zia r = None \<and> Miao r = None) df)"
    by (simp only: missing_labels_add_label c)
  moreover have "missing_labels (add_label label_incorrect df')
       = add_label label_incorrect
           (filter (\<lambda>r. Sitao r = None \<and> Cao r = None \<and> Miao r = None \<and> Zia r = None) df')"
    by (simp only: missing_labels_add_label i)
  moreover have "map ratings.truncate (missing_labels (add_label label_correct df))
       = filter (\<lambda>r. Zia r = None \<and> Miao r = None) df"
    by (simp only: truncate_missing_labels c)
  moreover have "map ratings.truncate (missing_labels (add_label label_incorrect df'))
       = filter (\<lambda>r. Sitao r = None \<and> Cao r = None \<and> Miao r = None \<and> Zia r = None) df'"
    by (simp only: truncate_missing_labels i)
  moreover have "\<forall>r\<in>set (missing_labels (add_label label_correct df)). label r = None"
    and "\<forall>r\<in>set (missing_labels (add_label label_incorrect df')). label r = None"
    by (simp_all add: label_missing_labels)
  ultimately show ?thesis
    using c [of row] i [of row] label_correct_first [of row] label_incorrect_first [of row]
    by blast
qed

theorem label_reconciliation_witness:
  "label_correct (hd example_ratings) = Some ''a''
   \<and> label_incorrect (hd example_ratings) = Some ''x''
   \<and> Sitao (hd example_ratings) = None \<and> Cao (hd example_ratings) = None
   \<and> Miao (hd example_ratings) = Some ''x''
   \<and> map ratings.truncate (add_label label_correct example_ratings) = example_ratings
   \<and> map label (add_label label_correct example_ratings) = [Some ''a'', None]
   \<and> map ratings.truncate (add_label label_incorrect example_ratings) = example_ratings
   \<and> map label (add_label label_incorrect example_ratings) = [Some ''x'', None]
   \<and> missing_labels (add_label label_incorrect example_ratings)
       = add_label label_incorrect [example_ratings ! 1]
   \<and> missing_labels (add_label label_correct example_ratings)
       = add_label label_correct [example_ratings ! 1]
   \<and> map ratings.truncate (missing_labels (add_label label_correct example_ratings))
       = [example_ratings ! 1]
   \<and> map ratings.truncate (missing_labels (add_label label_incorrect example_ratings))
       = [example_ratings ! 1]
   \<and> map label (missing_labels (add_label label_correct example_ratings)) = [None]
   \<and> map label (missing_labels (add_label label_incorrect example_ratings)) = [None]"
proof -
  note w = label_reconciliation [of "hd example_ratings" "''x''" example_ratings example_ratings]
  have m: "missing_labels (add_label label_correct example_ratings)
             = add_label label_correct [example_ratings ! 1]"
    "missing_labels (add_label label_incorrect example_ratings)
             = add_label label_incorrect [example_ratings ! 1]"
    using w by (simp_all add: example_ratings_def)
  have l: "map label (missing_labels (add_label label_correct example_ratings)) = [None]"
    "map label (missing_labels (add_label label_incorrect example_ratings)) = [None]"
    unfolding m by (simp_all add: add_label_def example_ratings_def label_correct_def
        label_incorrect_def notna_def)
  show ?thesis
    using w l by (simp add: example_ratings_def truncate_add_label)
qed

subsection \<open>Reliability subset and rater batches\<close>

lemma valid_identity_perm: "valid_perm identity_perm"
  by (simp add: valid_perm_def identity_perm_def)

lemma valid_reversed_perm: "valid_perm reversed_perm"
  by (simp add: valid_perm_def reversed_perm_def)

lemma length_example_samples: "length example_samples = 31"
  by (simp add: example_samples_def add_sample_ids_def)

lemma valid_perm_length: "valid_perm perm \<Longrightarrow> length (perm n) = n"
  by (metis valid_perm_def size_mset length_upt diff_zero)

lemma valid_perm_set: "valid_perm perm \<Longrightarrow> set (perm n) = {0..<n}"
  by (metis valid_perm_def set_mset_mset set_upt)

lemma mset_take_rows_perm:
  assumes "valid_perm perm"
  shows "mset (take_rows df (take (length df) (perm (length df)))) = mset df"
proof -
  have "mset (map (\<lambda>i. df ! i) (perm (length df))) = image_mset (\<lambda>i. df ! i) (mset [0..<length df])"
    using assms by (simp add: valid_perm_def)
  also have "\<dots> = mset (map (\<lambda>i. df ! i) [0..<length df])"
    by simp
  also have "\<dots> = mset df"
    by (simp add: map_nth)
  finally show ?thesis
    by (simp add: take_rows_def valid_perm_length [OF assms])
qed

lemma length_df_sample:
  assumes "valid_perm perm" "df_sample perm n df = Inr s"
  shows "length s = n"
  using assms by (auto simp: df_sample_def take_rows_def valid_perm_length split: if_splits)

lemma set_df_sample:
  assumes "valid_perm perm" "df_sample perm n df = Inr s"
  shows "set s \<subseteq> set df"
proof -
  have "set (take n (perm (length df))) \<subseteq> {0..<length df}"
    using valid_perm_set [OF assms(1)] set_take_subset by fastforce
  then have "\<forall>i\<in>set (take n (perm (length df))). df ! i \<in> set df"
    by (auto simp: subset_iff)
  then show ?thesis
    using assms(2) by (auto simp: df_sample_def take_rows_def split: if_splits)
qed

lemma concat_slices:
  "concat (map (\<lambda>i. take n (drop (i * n) xs)) [0..<k]) = take (k * n) xs"
proof (induction k)
  case 0
  show ?case by simp
next
  case (Suc k)
  have "Suc k * n = k * n + n"
    by simp
  then have "take (Suc k * n) xs = take (k * n) xs @ take n (drop (k * n) xs)"
    by (simp only: take_add)
  with Suc show ?case by simp
qed

lemma length_export_batches: "length (export_batches xs) = length xs div 100 + 1"
  by (simp add: export_batches_def batch_size_def)

lemma export_batches_nth:
  "i < length (export_batches xs) \<Longrightarrow> export_batches xs ! i = take 100 (drop (i * 100) xs)"
  by (simp add: export_batches_def batch_size_def iloc_def Let_def del: upt_Suc)

lemma concat_export_batches: "concat (export_batches xs) = xs"
proof -
  have "length xs < (length xs div 100 + 1) * 100"
    by (simp add: div_less_iff_less_mult)
  then have "take ((length xs div 100 + 1) * 100) xs = xs"
    by simp
  moreover have "export_batches xs = map (\<lambda>i. take 100 (drop (i * 100) xs)) [0..<length xs div 100 + 1]"
    by (simp add: export_batches_def batch_size_def iloc_def Let_def del: upt_Suc)
  ultimately show ?thesis
    using concat_slices [of 100 xs "length xs div 100 + 1"] by simp
qed

lemma full_batches:
  assumes "i + 1 < length (export_batches xs)"
  shows "length (export_batches xs ! i) = 100"
proof -
  from assms have "i < length xs div 100"
    by (simp add: length_export_batches)
  then have "Suc i * 100 \<le> length xs div 100 * 100"
    by (intro mult_le_mono1) simp
  also have "\<dots> \<le> length xs"
    by simp
  finally have "i * 100 + 100 \<le> length xs"
    by simp
  then show ?thesis
    using assms by (simp add: export_batches_nth)
qed

lemma batch_size_le:
  assumes "b \<in> set (export_batches xs)"
  shows "length b \<le> 100"
proof -
  from assms obtain i where "i < length (export_batches xs)" "b = export_batches xs ! i"
    by (auto simp: in_set_conv_nth)
  then show ?thesis
    by (simp add: export_batches_nth)
qed

lemma rater_columns_Sample_ID [simp]: "rater_row.Sample_ID (rater_columns r) = Sample_ID r"
  by (simp add: rater_columns_def)

lemma rater_files_returns:
  assumes "30 \<le> length samples_df"
  shows "\<exists>sample. df_sample perm1 30 (map select_columns samples_df) = Inr sample
           \<and> rater_files perm1 perm77 samples_df
               = Inr (map rater_columns sample,
                      export_batches (shuffle_rater perm77
                        (samples_rater (map select_columns samples_df) (map rater_columns sample))))"
  using assms by (simp add: rater_files_def reliability_sample_def df_sample_def Let_def)

lemma mset_shuffle_rater:
  "valid_perm perm77 \<Longrightarrow> mset (shuffle_rater perm77 df) = mset (map rater_columns df)"
  using mset_take_rows_perm [of perm77 df] by (simp add: shuffle_rater_def)

text \<open>
  C9, amended. After the carve-out of the thirty reliability rows, the remaining rows
  are shuffled and cut into consecutive slices of 100 rows: the batches, put end to
  end, are the shuffled table, which holds every remaining row exactly as often as the
  remaining table does, so every remaining row is in exactly one batch. Every batch
  has at most 100 rows, and every batch but the last has exactly 100.
\<close>

theorem rater_batches_partition:
  assumes "valid_perm perm1" and "valid_perm perm77" and "30 \<le> length samples_df"
  shows "\<exists>reliability batches.
           rater_files perm1 perm77 samples_df = Inr (reliability, batches)
           \<and> length reliability = 30
           \<and> mset (concat batches)
               = mset (map rater_columns (samples_rater (map select_columns samples_df) reliability))
           \<and> (\<forall>i<length batches. batches ! i = take 100 (drop (i * 100) (concat batches)))
           \<and> (\<forall>b\<in>set batches. length b \<le> 100)
           \<and> (\<forall>i. i + 1 < length batches \<longrightarrow> length (batches ! i) = 100)"
proof -
  from rater_files_returns [OF assms(3)] obtain sample where
    sample: "df_sample perm1 30 (map select_columns samples_df) = Inr sample"
    and files: "rater_files perm1 perm77 samples_df
      = Inr (map rater_columns sample,
             export_batches (shuffle_rater perm77
               (samples_rater (map select_columns samples_df) (map rater_columns sample))))"
    by blast
  let ?reliability = "map rater_columns sample"
  let ?shuffled = "shuffle_rater perm77 (samples_rater (map select_columns samples_df) ?reliability)"
  let ?batches = "export_batches ?shuffled"
  have "length ?reliability = 30"
    using length_df_sample [OF assms(1) sample] by simp
  moreover have "mset (concat ?batches)
      = mset (map rater_columns (samples_rater (map select_columns samples_df) ?reliability))"
    by (simp only: concat_export_batches mset_shuffle_rater [OF assms(2)])
  moreover have "\<forall>i<length ?batches. ?batches ! i = take 100 (drop (i * 100) (concat ?batches))"
    by (simp add: concat_export_batches export_batches_nth)
  moreover have "\<forall>b\<in>set ?batches. length b \<le> 100"
    using batch_size_le by blast
  moreover have "\<forall>i. i + 1 < length ?batches \<longrightarrow> length (?batches ! i) = 100"
    using full_batches by blast
  ultimately show ?thesis
    using files by blast
qed

theorem rater_batches_partition_witness:
  "valid_perm identity_perm \<and> valid_perm reversed_perm \<and> 30 \<le> length example_samples
   \<and> (\<exists>reliability batches.
           rater_files identity_perm reversed_perm example_samples = Inr (reliability, batches)
           \<and> length reliability = 30
           \<and> mset (concat batches)
               = mset (map rater_columns (samples_rater (map select_columns example_samples) reliability))
           \<and> (\<forall>i<length batches. batches ! i = take 100 (drop (i * 100) (concat batches)))
           \<and> (\<forall>b\<in>set batches. length b \<le> 100)
           \<and> (\<forall>i. i + 1 < length batches \<longrightarrow> length (batches ! i) = 100))"
  using rater_batches_partition [of identity_perm reversed_perm example_samples]
    valid_identity_perm valid_reversed_perm length_example_samples
  by simp

text \<open>
  The claim of C9 as stated fails: of a sample set of thirty-one rows, thirty go to the
  reliability subset, one row is left after the carve-out, and the one batch written
  holds that row alone, not 100 rows.
\<close>

theorem rater_batch_sizes_counterexample:
  "(case rater_files identity_perm reversed_perm example_samples of
      Inl e \<Rightarrow> (0, [])
    | Inr (reliability, batches) \<Rightarrow> (length reliability, map length batches))
   = (30, [1])"
  by code_simp

text \<open>
  C2. The reliability subset has thirty rows of the sample set, and no identifier of
  it is the identifier of a row of any rater batch: the carve-out keeps the rows whose
  identifier is not among the reliability identifiers, and shuffling and batching only
  rearrange the rows kept.
\<close>

theorem reliability_disjoint_from_batches:
  assumes "valid_perm perm1" and "valid_perm perm77" and "30 \<le> length samples_df"
  shows "\<exists>reliability batches.
           rater_files perm1 perm77 samples_df = Inr (reliability, batches)
           \<and> length reliability = 30
           \<and> set (map rater_row.Sample_ID reliability) \<subseteq> set (map Sample_ID samples_df)
           \<and> set (map rater_row.Sample_ID reliability)
               \<inter> set (map rater_row.Sample_ID (concat batches)) = {}
           \<and> (\<forall>batch\<in>set batches. \<forall>r\<in>set batch.
                 rater_row.Sample_ID r \<notin> set (map rater_row.Sample_ID reliability))"
proof -
  from rater_files_returns [OF assms(3)] obtain sample where
    sample: "df_sample perm1 30 (map select_columns samples_df) = Inr sample"
    and files: "rater_files perm1 perm77 samples_df
      = Inr (map rater_columns sample,
             export_batches (shuffle_rater perm77
               (samples_rater (map select_columns samples_df) (map rater_columns sample))))"
    by blast
  let ?reliability = "map rater_columns sample"
  let ?rater = "samples_rater (map select_columns samples_df) ?reliability"
  let ?batches = "export_batches (shuffle_rater perm77 ?rater)"
  have len: "length ?reliability = 30"
    using length_df_sample [OF assms(1) sample] by simp
  have "set sample \<subseteq> set (map select_columns samples_df)"
    by (rule set_df_sample [OF assms(1) sample])
  then have sub: "set (map rater_row.Sample_ID ?reliability) \<subseteq> set (map Sample_ID samples_df)"
    by (auto simp: select_columns_def)
  have "set (concat ?batches) = set (map rater_columns ?rater)"
    using mset_shuffle_rater [OF assms(2), of ?rater]
    by (simp only: concat_export_batches) (metis set_mset_mset)
  then have ids: "set (map rater_row.Sample_ID (concat ?batches)) = Sample_ID ` set ?rater"
    by (simp add: image_image)
  define R where "R = set (map rater_row.Sample_ID ?reliability)"
  have "Sample_ID r \<notin> R" if "r \<in> set ?rater" for r
    using that by (simp add: samples_rater_def R_def)
  then have "R \<inter> Sample_ID ` set ?rater = {}"
    by blast
  with ids have disj: "set (map rater_row.Sample_ID ?reliability)
      \<inter> set (map rater_row.Sample_ID (concat ?batches)) = {}"
    by (simp only: R_def)
  then have "\<forall>batch\<in>set ?batches. \<forall>r\<in>set batch.
      rater_row.Sample_ID r \<notin> set (map rater_row.Sample_ID ?reliability)"
    by auto
  with len sub disj files show ?thesis
    by blast
qed

theorem reliability_disjoint_from_batches_witness:
  "valid_perm identity_perm \<and> valid_perm reversed_perm \<and> 30 \<le> length example_samples
   \<and> (\<exists>reliability batches.
           rater_files identity_perm reversed_perm example_samples = Inr (reliability, batches)
           \<and> length reliability = 30
           \<and> set (map rater_row.Sample_ID reliability) \<subseteq> set (map Sample_ID example_samples)
           \<and> set (map rater_row.Sample_ID reliability)
               \<inter> set (map rater_row.Sample_ID (concat batches)) = {}
           \<and> (\<forall>batch\<in>set batches. \<forall>r\<in>set batch.
                 rater_row.Sample_ID r \<notin> set (map rater_row.Sample_ID reliability)))"
  using reliability_disjoint_from_batches [of identity_perm reversed_perm example_samples]
    valid_identity_perm valid_reversed_perm length_example_samples
  by simp

subsection \<open>Sampling\<close>

lemma truncate_extend_coded [simp]:
  "result_row.truncate (result_row.extend r (coded_row.fields a b)) = r"
  by (simp add: result_row.defs coded_row.defs)

lemma truncate_extend_sample [simp]:
  "result_row.truncate (coded_row.extend c (sample_row.fields s)) = result_row.truncate c"
  by (simp add: result_row.defs coded_row.defs sample_row.defs)

lemma Sample_ID_extend [simp]: "Sample_ID (coded_row.extend c (sample_row.fields s)) = s"
  by (simp add: coded_row.defs sample_row.defs)

lemma Model_truncate [simp]: "Model (result_row.truncate r) = Model r"
  and Exam_Type_truncate [simp]: "Exam_Type (result_row.truncate r) = Exam_Type r"
  and Question_Type_truncate [simp]: "Question_Type (result_row.truncate r) = Question_Type r"
  and Is_Correct_truncate [simp]: "Is_Correct (result_row.truncate r) = Is_Correct r"
  and Model_Answer_truncate [simp]: "Model_Answer (result_row.truncate r) = Model_Answer r"
  by (simp_all add: result_row.defs)

lemma length_add_sample_ids [simp]: "length (add_sample_ids start df) = length df"
  by (simp add: add_sample_ids_def)

lemma map2_fst: "length xs = length ys \<Longrightarrow> map2 (\<lambda>x y. f x) xs ys = map f xs"
  by (induction xs ys rule: list_induct2) auto

lemma map2_snd: "length xs = length ys \<Longrightarrow> map2 (\<lambda>x y. g y) xs ys = map g ys"
  by (induction xs ys rule: list_induct2) auto

lemma truncate_add_sample_ids:
  "map result_row.truncate (add_sample_ids start df) = map result_row.truncate df"
proof -
  have "map result_row.truncate (add_sample_ids start df)
      = map2 (\<lambda>r i. result_row.truncate r) df [start..<start + length df]"
    by (simp add: add_sample_ids_def split_def)
  then show ?thesis
    by (simp add: map2_fst)
qed

lemma Sample_ID_add_sample_ids:
  "map Sample_ID (add_sample_ids start df) = map sample_id [start..<start + length df]"
proof -
  have "map Sample_ID (add_sample_ids start df)
      = map2 (\<lambda>r i. sample_id i) df [start..<start + length df]"
    by (simp add: add_sample_ids_def split_def)
  then show ?thesis
    by (simp add: map2_snd)
qed

lemma mset_insort_row: "mset (insort_row x ys) = add_mset x (mset ys)"
  by (induction ys) auto

lemma mset_sort_rows: "mset (foldr insort_row rows []) = mset rows"
  by (induction rows) (auto simp: mset_insort_row)

lemma lex3_trans:
  fixes ma mb mc :: "'a::linorder" and ea eb ec :: "'b::linorder" and qa qb qc :: "'c::linorder"
  assumes "\<not> (mb < ma \<or> mb = ma \<and> (eb < ea \<or> eb = ea \<and> qa < qb))"
    and "\<not> (mc < mb \<or> mc = mb \<and> (ec < eb \<or> ec = eb \<and> qb < qc))"
  shows "\<not> (mc < ma \<or> mc = ma \<and> (ec < ea \<or> ec = ea \<and> qa < qc))"
proof -
  from assms(1) have ab: "ma < mb \<or> ma = mb \<and> (ea < eb \<or> ea = eb \<and> qb \<le> qa)"
    by (auto simp: not_less le_less)
  from assms(2) have bc: "mb < mc \<or> mb = mc \<and> (eb < ec \<or> eb = ec \<and> qc \<le> qb)"
    by (auto simp: not_less le_less)
  from ab bc have "ma < mc \<or> ma = mc \<and> (ea < ec \<or> ea = ec \<and> qc \<le> qa)"
    by (elim disjE conjE) (auto intro: less_trans order_trans)
  then show ?thesis
    by (auto simp: not_less)
qed

lemma lex3_asym:
  fixes ma mb :: "'a::linorder" and ea eb :: "'b::linorder" and qa qb :: "'c::linorder"
  assumes "mb < ma \<or> mb = ma \<and> (eb < ea \<or> eb = ea \<and> qa < qb)"
  shows "\<not> (ma < mb \<or> ma = mb \<and> (ea < eb \<or> ea = eb \<and> qb < qa))"
  using assms by (elim disjE conjE) (auto dest: less_asym)

lemma not_sorts_before_trans:
  assumes "\<not> sorts_before b a" and "\<not> sorts_before c b"
  shows "\<not> sorts_before c a"
proof -
  note h = lex3_trans [where ma = "Model a" and mb = "Model b" and mc = "Model c"
      and ea = "Exam_Type a" and eb = "Exam_Type b" and ec = "Exam_Type c"
      and qa = "Question_Type a" and qb = "Question_Type b" and qc = "Question_Type c"]
  from assms show ?thesis
    by (simp only: sorts_before_def) (rule h)
qed

lemma sorts_before_asym:
  assumes "sorts_before y x"
  shows "\<not> sorts_before x y"
proof -
  note h = lex3_asym [where ma = "Model x" and mb = "Model y"
      and ea = "Exam_Type x" and eb = "Exam_Type y"
      and qa = "Question_Type x" and qb = "Question_Type y"]
  from assms show ?thesis
    by (simp only: sorts_before_def) (rule h)
qed

lemma set_insort_row: "set (insort_row x ys) = insert x (set ys)"
  by (induction ys) auto

lemma sorted_insort_row:
  "sorted_wrt (\<lambda>a b. \<not> sorts_before b a) ys \<Longrightarrow> sorted_wrt (\<lambda>a b. \<not> sorts_before b a) (insort_row x ys)"
proof (induction ys)
  case Nil
  show ?case by simp
next
  case (Cons y ys)
  show ?case
  proof (cases "sorts_before y x")
    case True
    with Cons sorts_before_asym [OF True] show ?thesis
      by (auto simp: set_insort_row)
  next
    case False
    have "\<not> sorts_before z x" if "z \<in> set ys" for z
    proof -
      from Cons.prems that have "\<not> sorts_before z y" by simp
      with False show ?thesis by (rule not_sorts_before_trans)
    qed
    with False Cons.prems show ?thesis
      by simp
  qed
qed

lemma sorted_sort_rows: "sorted_wrt (\<lambda>a b. \<not> sorts_before b a) (foldr insort_row rows [])"
  by (induction rows) (simp_all add: sorted_insort_row)

lemma sampling_loop_eq:
  "sampling_loop perm df models (T, F)
   = Inr (T @ map (model_sample perm df) (filter (\<lambda>m. correct_answers_of df m \<noteq> []) models),
          F @ map (incorrect_answers_of df) (filter (\<lambda>m. incorrect_answers_of df m \<noteq> []) models))"
proof (induction models arbitrary: T F)
  case Nil
  show ?case by simp
next
  case (Cons m models)
  show ?case
    by (simp add: Let_def df_sample_def Cons.IH model_sample_def correct_answers_of_def
        incorrect_answers_of_def)
qed

lemma length_sort_rows [simp]: "length (foldr insort_row rows []) = length rows"
  using mset_sort_rows [of rows] by (metis size_mset)

lemma create_samples_eq:
  "create_samples perm (DataFrame rows)
   = (if true_tables perm rows = [] \<or> false_tables rows = [] then Inl KeyError
      else Inr (add_sample_ids 1 (foldr insort_row (map add_columns (concat (true_tables perm rows))) []),
                add_sample_ids (length (concat (true_tables perm rows)) + 1)
                  (foldr insort_row (map add_columns (concat (false_tables rows))) [])))"
  by (simp add: create_samples_def sampling_loop_eq concat_frames_def add_code_comment_def
      sort_values_def true_tables_def false_tables_def add_columns_def [abs_def] Let_def)

lemma set_unique [simp]: "set (unique xs) = set xs"
  by (simp add: unique_def)

lemma distinct_unique [simp]: "distinct (unique xs)"
  by (simp add: unique_def)

lemma true_tables_empty:
  "true_tables perm rows = [] \<longleftrightarrow> \<not> (\<exists>r\<in>set rows. Is_Correct r)"
  by (auto simp: true_tables_def filter_empty_conv correct_answers_of_def)

lemma false_tables_empty:
  "false_tables rows = []
   \<longleftrightarrow> \<not> (\<exists>r\<in>set rows. \<not> Is_Correct r \<and> \<not> str_contains (Model_Answer r) skip_marker)"
  by (auto simp: false_tables_def filter_empty_conv incorrect_answers_of_def)

lemma concat_map_nonempty: "concat (map f (filter (\<lambda>m. f m \<noteq> []) ms)) = concat (map f ms)"
  by (induction ms) auto

lemma mset_concat_by_model:
  "distinct ms \<Longrightarrow>
   mset (concat (map (\<lambda>m. filter P (filter (\<lambda>r. Model r = m) df)) ms))
   = filter_mset (\<lambda>r. Model r \<in> set ms \<and> P r) (mset df)"
proof (induction ms)
  case Nil
  show ?case by simp
next
  case (Cons m ms)
  then have "m \<notin> set ms" and "distinct ms" by simp_all
  then show ?case
    using Cons.IH by (auto simp: multiset_eq_iff)
qed

lemma mset_false_tables:
  "mset (concat (false_tables rows))
   = mset (filter (\<lambda>r. \<not> Is_Correct r \<and> \<not> str_contains (Model_Answer r) skip_marker) rows)"
proof -
  have "concat (false_tables rows) = concat (map (incorrect_answers_of rows) (unique (map Model rows)))"
    unfolding false_tables_def by (rule concat_map_nonempty)
  also have "mset \<dots> = filter_mset (\<lambda>r. Model r \<in> set (unique (map Model rows))
        \<and> (Is_Correct r = False \<and> \<not> str_contains (Model_Answer r) skip_marker)) (mset rows)"
    unfolding incorrect_answers_of_def by (rule mset_concat_by_model) simp
  also have "\<dots> = mset (filter (\<lambda>r. \<not> Is_Correct r \<and> \<not> str_contains (Model_Answer r) skip_marker) rows)"
    by (auto simp: multiset_eq_iff)
  finally show ?thesis .
qed

lemma filter_concat_by_model:
  assumes "distinct ms" and "\<forall>m'\<in>set ms. \<forall>r\<in>set (S m'). Model r = m'"
  shows "filter (\<lambda>r. Model r = m) (concat (map S ms)) = (if m \<in> set ms then S m else [])"
  using assms
proof (induction ms)
  case Nil
  show ?case by simp
next
  case (Cons a ms)
  have IH: "filter (\<lambda>r. Model r = m) (concat (map S ms)) = (if m \<in> set ms then S m else [])"
    using Cons by simp
  show ?case
  proof (cases "a = m")
    case True
    have "filter (\<lambda>r. Model r = m) (S m) = S m"
      using Cons.prems(2) True by (simp add: filter_id_conv)
    moreover have "m \<notin> set ms"
      using Cons.prems(1) True by simp
    ultimately show ?thesis
      using True IH by simp
  next
    case False
    have "filter (\<lambda>r. Model r = m) (S a) = []"
      using Cons.prems(2) False by (simp add: filter_empty_conv)
    then show ?thesis
      using False IH by simp
  qed
qed

lemma model_sample_rows:
  assumes "valid_perm perm"
  shows "set (model_sample perm df m) \<subseteq> set (correct_answers_of df m)"
    and "length (model_sample perm df m) = min 30 (length (correct_answers_of df m))"
proof -
  let ?c = "correct_answers_of df m"
  have s: "df_sample perm (min 30 (length ?c)) ?c = Inr (model_sample perm df m)"
    by (simp add: df_sample_def model_sample_def)
  show "set (model_sample perm df m) \<subseteq> set ?c"
    by (rule set_df_sample [OF assms s])
  show "length (model_sample perm df m) = min 30 (length ?c)"
    by (rule length_df_sample [OF assms s])
qed

lemma true_tables_by_model:
  assumes "valid_perm perm"
  shows "length (filter (\<lambda>r. Model r = m) (concat (true_tables perm rows)))
         = min 30 (length (filter (\<lambda>r. Model r = m \<and> Is_Correct r) rows))"
proof -
  define ms where "ms = filter (\<lambda>m. correct_answers_of rows m \<noteq> []) (unique (map Model rows))"
  have c: "correct_answers_of rows m = filter (\<lambda>r. Model r = m \<and> Is_Correct r) rows"
    by (simp add: correct_answers_of_def conj_commute)
  have d: "distinct ms"
    by (simp add: ms_def)
  have "Model r = m'" if "r \<in> set (model_sample perm rows m')" for r m'
  proof -
    from that model_sample_rows(1) [OF assms, of rows m']
    have "r \<in> set (correct_answers_of rows m')" by blast
    then show ?thesis by (simp add: correct_answers_of_def)
  qed
  then have "\<forall>m'\<in>set ms. \<forall>r\<in>set (model_sample perm rows m'). Model r = m'"
    by blast
  with d have f: "filter (\<lambda>r. Model r = m) (concat (map (model_sample perm rows) ms))
      = (if m \<in> set ms then model_sample perm rows m else [])"
    by (rule filter_concat_by_model)
  have t: "true_tables perm rows = map (model_sample perm rows) ms"
    by (simp add: true_tables_def ms_def)
  show ?thesis
  proof (cases "m \<in> set ms")
    case True
    with f t show ?thesis
      by (simp add: model_sample_rows(2) [OF assms] c)
  next
    case False
    then have "correct_answers_of rows m = []"
      by (auto simp: ms_def correct_answers_of_def filter_empty_conv)
    with False f t c show ?thesis
      by simp
  qed
qed

lemma digits_value_simps [simp]:
  "digits_value [] = 0" "digits_value [d] = d"
  by (simp_all add: digits_value_def)

lemma digits_value_decimal_digits: "digits_value (decimal_digits n) = n"
proof (induction n rule: decimal_digits.induct)
  case (1 n)
  show ?case
  proof (cases "n < 10")
    case True
    then show ?thesis by (simp add: decimal_digits.simps [of n])
  next
    case False
    with 1 show ?thesis
      by (simp add: decimal_digits.simps [of n] digits_value_append)
  qed
qed

lemma digits_value_zeros: "digits_value (replicate k 0 @ ds) = digits_value ds"
proof -
  have "digits_value (replicate k 0) = 0"
    by (induction k) (simp_all add: digits_value_def)
  then show ?thesis
    by (simp add: digits_value_append)
qed

lemma id_number_sample_id: "id_number (sample_id n) = n"
proof -
  have "map (\<lambda>c. c - 48) (format_03d n)
      = replicate (3 - length (decimal_digits n)) 0 @ decimal_digits n"
    by (simp add: format_03d_def Let_def comp_def)
  then show ?thesis
    by (simp add: id_number_def sample_id_def digits_value_zeros digits_value_decimal_digits)
qed

lemma inj_sample_id: "inj sample_id"
  by (rule inj_on_inverseI [where g = id_number]) (rule id_number_sample_id)

lemma distinct_sample_ids: "distinct (map sample_id [a..<b])"
  by (simp add: distinct_map inj_on_subset [OF inj_sample_id])

lemma decimal_digits_lt_10: "d \<in> set (decimal_digits n) \<Longrightarrow> d < 10"
proof (induction n rule: decimal_digits.induct)
  case (1 n)
  then show ?case
    by (cases "n < 10") (auto simp: decimal_digits.simps [of n])
qed

lemma length_decimal_digits: "n < 1000 \<Longrightarrow> length (decimal_digits n) \<le> 3"
  by (simp add: decimal_digits.simps [of n] decimal_digits.simps [of "n div 10"]
      decimal_digits.simps [of "n div 10 div 10"])

lemma digits_value_bound: "\<forall>d\<in>set ds. d < 10 \<Longrightarrow> digits_value ds < 10 ^ length ds"
proof (induction ds rule: rev_induct)
  case Nil
  show ?case by simp
next
  case (snoc d ds)
  then have "digits_value ds < 10 ^ length ds" and "d < 10" by simp_all
  then have "digits_value ds * 10 + d < 10 ^ length ds * 10"
    by linarith
  then show ?case
    by (simp add: digits_value_append)
qed

lemma lex_digits:
  assumes "length xs = length ys" and "\<forall>d\<in>set xs. d < 10" and "\<forall>d\<in>set ys. d < 10"
  shows "xs < ys \<longleftrightarrow> digits_value xs < digits_value ys"
  using assms
proof (induction xs ys rule: list_induct2)
  case Nil
  show ?case by simp
next
  case (Cons x xs y ys)
  have vx: "digits_value (x # xs) = x * 10 ^ length xs + digits_value xs"
    using digits_value_append [of "[x]" xs] by simp
  have vy: "digits_value (y # ys) = y * 10 ^ length xs + digits_value ys"
    using digits_value_append [of "[y]" ys] Cons.hyps by simp
  have bx: "digits_value xs < 10 ^ length xs"
    using Cons.prems by (intro digits_value_bound) simp
  have by': "digits_value ys < 10 ^ length xs"
    using Cons.prems Cons.hyps digits_value_bound [of ys] by simp
  have IH: "xs < ys \<longleftrightarrow> digits_value xs < digits_value ys"
    using Cons by simp
  show ?case
  proof (cases x y rule: linorder_cases)
    case less
    then have "(x + 1) * 10 ^ length xs \<le> y * 10 ^ length xs"
      by (intro mult_le_mono1) simp
    with bx have "digits_value (x # xs) < digits_value (y # ys)"
      unfolding vx vy by (simp add: algebra_simps)
    with less show ?thesis by simp
  next
    case equal
    have "digits_value (x # xs) < digits_value (y # ys) \<longleftrightarrow> digits_value xs < digits_value ys"
      unfolding vx vy using equal by simp
    with IH equal show ?thesis by simp
  next
    case greater
    then have "(y + 1) * 10 ^ length xs \<le> x * 10 ^ length xs"
      by (intro mult_le_mono1) simp
    with by' have "digits_value (y # ys) < digits_value (x # xs)"
      unfolding vx vy by (simp add: algebra_simps)
    with greater show ?thesis by (simp add: not_less_iff_gr_or_eq)
  qed
qed

lemma map_add48_less: "map (\<lambda>d. 48 + d) xs < map (\<lambda>d. 48 + d) ys \<longleftrightarrow> xs < (ys :: nat list)"
proof (induction xs arbitrary: ys)
  case Nil
  show ?case by (cases ys) simp_all
next
  case (Cons x xs)
  then show ?case by (cases ys) auto
qed

lemma format_03d_digits:
  "format_03d n = map (\<lambda>d. 48 + d) (replicate (3 - length (decimal_digits n)) 0 @ decimal_digits n)"
  by (simp add: format_03d_def Let_def)

lemma sample_id_less:
  assumes "i < 1000" and "j < 1000"
  shows "sample_id i < sample_id j \<longleftrightarrow> i < j"
proof -
  let ?d = "\<lambda>n. replicate (3 - length (decimal_digits n)) 0 @ decimal_digits n"
  have len: "length (?d n) = 3" if "n < 1000" for n
    using length_decimal_digits [OF that] by simp
  have dig: "\<forall>d\<in>set (?d n). d < 10" for n
    using decimal_digits_lt_10 [of _ n] by auto
  have val: "digits_value (?d n) = n" for n
    by (simp add: digits_value_zeros digits_value_decimal_digits)
  have "?d i < ?d j \<longleftrightarrow> digits_value (?d i) < digits_value (?d j)"
    using len [OF assms(1)] len [OF assms(2)] dig [of i] dig [of j]
    by (intro lex_digits) simp_all
  then show ?thesis
    by (simp only: sample_id_def format_03d_digits Cons_less_Cons map_add48_less val) simp
qed

lemma sorted_sample_ids:
  assumes "b \<le> 1000"
  shows "sorted_wrt (<) (map sample_id [a..<b])"
proof -
  have "sorted_wrt (\<lambda>i j. sample_id i < sample_id j) [a..<b]"
  proof (rule sorted_wrt_mono_rel [where P = "(<)"])
    fix i j
    assume "i \<in> set [a..<b]" "j \<in> set [a..<b]" "i < j"
    with assms show "sample_id i < sample_id j"
      by (simp add: sample_id_less)
  next
    show "sorted_wrt (<) [a..<b]"
      by simp
  qed
  then show ?thesis
    by (simp add: sorted_wrt_map)
qed

lemma id_numbers: "map id_number (map sample_id ns) = ns"
  by (simp add: comp_def id_number_sample_id)

lemma sample_id_999: "sample_id 999 = ascii ''S999''" and sample_id_1000: "sample_id 1000 = ascii ''S1000''"
  by code_simp+

lemma sample_id_1000_less_999: "sample_id 1000 < sample_id 999"
  by (simp add: sample_id_999 sample_id_1000 ascii_def)

lemma sorts_before_truncate [simp]:
  "sorts_before (result_row.truncate a) (result_row.truncate b) = sorts_before a b"
  by (simp add: sorts_before_def)

lemma sorted_rows_truncate:
  "sorted_wrt (\<lambda>a b. \<not> sorts_before b a) (map result_row.truncate xs)
   = sorted_wrt (\<lambda>a b. \<not> sorts_before b a) xs"
  by (simp add: sorted_wrt_map)

lemma sorted_add_sample_ids:
  "sorted_wrt (\<lambda>a b. \<not> sorts_before b a) (add_sample_ids k (foldr insort_row df []))"
proof -
  have "sorted_wrt (\<lambda>a b. \<not> sorts_before b a) (map result_row.truncate (foldr insort_row df []))"
    by (simp only: sorted_rows_truncate sorted_sort_rows)
  then have "sorted_wrt (\<lambda>a b. \<not> sorts_before b a)
      (map result_row.truncate (add_sample_ids k (foldr insort_row df [])))"
    by (simp only: truncate_add_sample_ids)
  then show ?thesis
    by (simp only: sorted_rows_truncate)
qed

lemma truncate_add_columns [simp]: "result_row.truncate (add_columns r) = r"
  by (simp add: add_columns_def)

lemma mset_sampled:
  "mset (map result_row.truncate (add_sample_ids k (foldr insort_row (map add_columns df) []))) = mset df"
proof -
  have "mset (map result_row.truncate (foldr insort_row (map add_columns df) []))
      = image_mset result_row.truncate (mset (map add_columns df))"
    by (simp only: mset_map mset_sort_rows)
  also have "\<dots> = mset df"
    by (simp add: multiset.map_comp comp_def)
  finally show ?thesis
    by (simp only: truncate_add_sample_ids)
qed

text \<open>What \<^verbatim>\<open>create_samples\<close> returns, and when.\<close>

lemma create_samples_returns:
  assumes "\<exists>r\<in>set rows. Is_Correct r"
    and "\<exists>r\<in>set rows. \<not> Is_Correct r \<and> \<not> str_contains (Model_Answer r) skip_marker"
  shows "\<exists>ts fs. create_samples perm (DataFrame rows) = Inr (ts, fs)
           \<and> sorted_wrt (\<lambda>a b. \<not> sorts_before b a) ts
           \<and> sorted_wrt (\<lambda>a b. \<not> sorts_before b a) fs
           \<and> mset (map result_row.truncate ts) = mset (concat (true_tables perm rows))
           \<and> mset (map result_row.truncate fs)
               = mset (filter (\<lambda>r. \<not> Is_Correct r \<and> \<not> str_contains (Model_Answer r) skip_marker) rows)
           \<and> map Sample_ID ts = map sample_id [1..<length ts + 1]
           \<and> map Sample_ID fs = map sample_id [length ts + 1..<length ts + length fs + 1]"
proof -
  let ?ts = "add_sample_ids 1 (foldr insort_row (map add_columns (concat (true_tables perm rows))) [])"
  let ?fs = "add_sample_ids (length (concat (true_tables perm rows)) + 1)
      (foldr insort_row (map add_columns (concat (false_tables rows))) [])"
  have "create_samples perm (DataFrame rows) = Inr (?ts, ?fs)"
    using assms by (simp only: create_samples_eq true_tables_empty false_tables_empty) simp
  moreover have "sorted_wrt (\<lambda>a b. \<not> sorts_before b a) ?ts"
    and "sorted_wrt (\<lambda>a b. \<not> sorts_before b a) ?fs"
    by (rule sorted_add_sample_ids)+
  moreover have "mset (map result_row.truncate ?ts) = mset (concat (true_tables perm rows))"
    by (rule mset_sampled)
  moreover have "mset (map result_row.truncate ?fs)
      = mset (filter (\<lambda>r. \<not> Is_Correct r \<and> \<not> str_contains (Model_Answer r) skip_marker) rows)"
    by (simp only: mset_sampled mset_false_tables)
  moreover have "map Sample_ID ?ts = map sample_id [1..<length ?ts + 1]"
    by (simp add: Sample_ID_add_sample_ids)
  moreover have "map Sample_ID ?fs = map sample_id [length ?ts + 1..<length ?ts + length ?fs + 1]"
    by (simp add: Sample_ID_add_sample_ids)
  ultimately show ?thesis
    by blast
qed

lemma example_table_correct: "\<exists>r\<in>set example_table. Is_Correct r"
  by (simp add: example_table_def example_result_def answers_equal_def)

lemma example_table_incorrect:
  "\<exists>r\<in>set example_table. \<not> Is_Correct r \<and> \<not> str_contains (Model_Answer r) skip_marker"
  by (simp add: example_table_def example_result_def answers_equal_def str_contains_def
      skip_marker_def ascii_def)

lemma length_filter_truncate:
  "length (filter (\<lambda>r. Model r = m) xs)
   = size (filter_mset (\<lambda>r. Model r = m) (mset (map result_row.truncate xs)))"
proof -
  have "filter (\<lambda>r. Model r = m) (map result_row.truncate xs)
      = map result_row.truncate (filter (\<lambda>r. Model r = m) xs)"
    by (simp add: filter_map comp_def)
  then have "length (filter (\<lambda>r. Model r = m) (map result_row.truncate xs))
      = length (filter (\<lambda>r. Model r = m) xs)"
    by (simp only: length_map)
  then have "length (filter (\<lambda>r. Model r = m) xs)
      = size (mset (filter (\<lambda>r. Model r = m) (map result_row.truncate xs)))"
    by (simp only: size_mset)
  then show ?thesis
    by (simp only: mset_filter)
qed

text \<open>
  Where it returns, that is on a table with a correct answer and an incorrect answer
  that is not a skip, \<^verbatim>\<open>create_samples\<close> gives for every model a correct-answer
  sample of exactly \<open>min 30 n\<close> rows of that model, where \<open>n\<close> is the number of the
  model's correct answers.
\<close>

lemma correct_sample_size:
  assumes "valid_perm perm"
    and "\<exists>r\<in>set rows. Is_Correct r"
    and "\<exists>r\<in>set rows. \<not> Is_Correct r \<and> \<not> str_contains (Model_Answer r) skip_marker"
  shows "\<exists>true_samples false_samples.
           create_samples perm (DataFrame rows) = Inr (true_samples, false_samples)
           \<and> (\<forall>model. length (filter (\<lambda>r. Model r = model) true_samples)
                 = min 30 (length (filter (\<lambda>r. Model r = model \<and> Is_Correct r) rows)))"
proof -
  from create_samples_returns [OF assms(2,3), of perm] obtain ts fs where
    ret: "create_samples perm (DataFrame rows) = Inr (ts, fs)"
    and ts: "mset (map result_row.truncate ts) = mset (concat (true_tables perm rows))"
    by blast
  have "length (filter (\<lambda>r. Model r = model) ts)
      = min 30 (length (filter (\<lambda>r. Model r = model \<and> Is_Correct r) rows))" for model
  proof -
    have "length (filter (\<lambda>r. Model r = model) ts)
        = size (filter_mset (\<lambda>r. Model r = model) (mset (concat (true_tables perm rows))))"
      by (simp only: length_filter_truncate ts)
    also have "\<dots> = length (filter (\<lambda>r. Model r = model) (concat (true_tables perm rows)))"
      by (simp only: mset_filter [symmetric] size_mset)
    finally show ?thesis
      by (simp only: true_tables_by_model [OF assms(1)])
  qed
  with ret show ?thesis
    by blast
qed

lemma correct_sample_size_example:
  "valid_perm identity_perm
   \<and> (\<exists>r\<in>set example_table. Is_Correct r)
   \<and> (\<exists>r\<in>set example_table. \<not> Is_Correct r \<and> \<not> str_contains (Model_Answer r) skip_marker)
   \<and> (\<exists>true_samples false_samples.
           create_samples identity_perm (DataFrame example_table) = Inr (true_samples, false_samples)
           \<and> (\<forall>model. length (filter (\<lambda>r. Model r = model) true_samples)
                 = min 30 (length (filter (\<lambda>r. Model r = model \<and> Is_Correct r) example_table))))"
  using correct_sample_size [of identity_perm example_table]
    valid_identity_perm example_table_correct example_table_incorrect
  by blast

text \<open>
  Where \<^verbatim>\<open>create_samples\<close> returns, the incorrect-answer sample holds exactly the
  records whose correctness is false and whose cleaned answer does not contain the skip
  marker, each as often as the table holds it, over the whole table and for every
  model; no record with the skip marker and no correct record is in it.
  \<open>result_row.truncate\<close> reads the result columns of a sample row.
\<close>

lemma incorrect_sample_exhaustive:
  assumes "\<exists>r\<in>set rows. Is_Correct r"
    and "\<exists>r\<in>set rows. \<not> Is_Correct r \<and> \<not> str_contains (Model_Answer r) skip_marker"
  shows "\<exists>true_samples false_samples.
           create_samples perm (DataFrame rows) = Inr (true_samples, false_samples)
           \<and> mset (map result_row.truncate false_samples)
               = mset (filter (\<lambda>r. \<not> Is_Correct r \<and> \<not> str_contains (Model_Answer r) skip_marker) rows)
           \<and> (\<forall>model. mset (map result_row.truncate (filter (\<lambda>r. Model r = model) false_samples))
                 = mset (filter (\<lambda>r. Model r = model \<and> \<not> Is_Correct r
                                  \<and> \<not> str_contains (Model_Answer r) skip_marker) rows))
           \<and> (\<forall>r\<in>set false_samples.
                 \<not> Is_Correct r \<and> \<not> str_contains (Model_Answer r) skip_marker)"
proof -
  let ?eligible = "\<lambda>r. \<not> Is_Correct r \<and> \<not> str_contains (Model_Answer r) skip_marker"
  from create_samples_returns [OF assms, of perm] obtain ts fs where
    ret: "create_samples perm (DataFrame rows) = Inr (ts, fs)"
    and fs: "mset (map result_row.truncate fs) = mset (filter ?eligible rows)"
    by blast
  have by_model: "mset (map result_row.truncate (filter (\<lambda>r. Model r = model) fs))
      = mset (filter (\<lambda>r. Model r = model \<and> ?eligible r) rows)" for model
  proof -
    have "map result_row.truncate (filter (\<lambda>r. Model r = model) fs)
        = filter (\<lambda>r. Model r = model) (map result_row.truncate fs)"
      by (simp add: filter_map comp_def)
    then have "mset (map result_row.truncate (filter (\<lambda>r. Model r = model) fs))
        = filter_mset (\<lambda>r. Model r = model) (mset (map result_row.truncate fs))"
      by (simp only: mset_filter)
    also have "\<dots> = filter_mset (\<lambda>r. Model r = model) (mset (filter ?eligible rows))"
      by (simp only: fs)
    also have "\<dots> = mset (filter (\<lambda>r. Model r = model \<and> ?eligible r) rows)"
      by (auto simp: multiset_eq_iff)
    finally show ?thesis .
  qed
  have "?eligible r" if "r \<in> set fs" for r
  proof -
    from that have "result_row.truncate r \<in> set (map result_row.truncate fs)"
      by simp
    then have "result_row.truncate r \<in># mset (filter ?eligible rows)"
      by (simp only: fs [symmetric] set_mset_mset)
    then have "?eligible (result_row.truncate r)"
      by simp
    then show ?thesis
      by simp
  qed
  with ret fs by_model show ?thesis
    by blast
qed

lemma incorrect_sample_exhaustive_example:
  "(\<exists>r\<in>set example_table. Is_Correct r)
   \<and> (\<exists>r\<in>set example_table. \<not> Is_Correct r \<and> \<not> str_contains (Model_Answer r) skip_marker)
   \<and> (\<exists>true_samples false_samples.
           create_samples identity_perm (DataFrame example_table) = Inr (true_samples, false_samples)
           \<and> mset (map result_row.truncate false_samples)
               = mset (filter (\<lambda>r. \<not> Is_Correct r \<and> \<not> str_contains (Model_Answer r) skip_marker)
                    example_table)
           \<and> (\<forall>model. mset (map result_row.truncate (filter (\<lambda>r. Model r = model) false_samples))
                 = mset (filter (\<lambda>r. Model r = model \<and> \<not> Is_Correct r
                                  \<and> \<not> str_contains (Model_Answer r) skip_marker) example_table))
           \<and> (\<forall>r\<in>set false_samples.
                 \<not> Is_Correct r \<and> \<not> str_contains (Model_Answer r) skip_marker))"
  using incorrect_sample_exhaustive [of example_table identity_perm]
    example_table_correct example_table_incorrect
  by blast

lemma combined_sample_ids:
  assumes "map Sample_ID ts = map sample_id [1..<length ts + 1]"
    and "map Sample_ID fs = map sample_id [length ts + 1..<length ts + length fs + 1]"
  shows "map Sample_ID (ts @ fs) = map sample_id [1..<length ts + length fs + 1]"
proof -
  have "[1..<length ts + 1] @ [length ts + 1..<length ts + length fs + 1]
      = [1..<length ts + length fs + 1]"
    using upt_add_eq_append [of 1 "length ts + 1" "length fs"] by (simp add: add.commute add.left_commute)
  moreover have "map Sample_ID (ts @ fs)
      = map sample_id ([1..<length ts + 1] @ [length ts + 1..<length ts + length fs + 1])"
    by (simp only: map_append assms)
  ultimately show ?thesis
    by (simp only:)
qed

text \<open>
  C1, amended. Both sample tables are sorted by model ascending, exam type ascending
  and question type descending, and the identifiers are the zero-padded numbers
  \<open>1, 2, \<dots>\<close> in the order of the rows, the incorrect table going on where the correct
  table stops. The identifiers of the combined set are pairwise distinct and the numbers
  they show increase strictly; as strings they increase strictly as long as the combined
  set has at most 999 rows.
\<close>

theorem sample_ids_sequential:
  assumes "\<exists>r\<in>set rows. Is_Correct r"
    and "\<exists>r\<in>set rows. \<not> Is_Correct r \<and> \<not> str_contains (Model_Answer r) skip_marker"
  shows "\<exists>true_samples false_samples.
           create_samples perm (DataFrame rows) = Inr (true_samples, false_samples)
           \<and> sorted_wrt (\<lambda>a b. \<not> sorts_before b a) true_samples
           \<and> sorted_wrt (\<lambda>a b. \<not> sorts_before b a) false_samples
           \<and> map Sample_ID true_samples = map sample_id [1..<length true_samples + 1]
           \<and> map Sample_ID false_samples
               = map sample_id [length true_samples + 1..<length true_samples + length false_samples + 1]
           \<and> distinct (map Sample_ID (true_samples @ false_samples))
           \<and> map id_number (map Sample_ID (true_samples @ false_samples))
               = [1..<length true_samples + length false_samples + 1]
           \<and> (length true_samples + length false_samples \<le> 999
                \<longrightarrow> sorted_wrt (<) (map Sample_ID (true_samples @ false_samples)))"
proof -
  from create_samples_returns [OF assms, of perm] obtain ts fs where
    ret: "create_samples perm (DataFrame rows) = Inr (ts, fs)"
    and sorted: "sorted_wrt (\<lambda>a b. \<not> sorts_before b a) ts" "sorted_wrt (\<lambda>a b. \<not> sorts_before b a) fs"
    and ids: "map Sample_ID ts = map sample_id [1..<length ts + 1]"
      "map Sample_ID fs = map sample_id [length ts + 1..<length ts + length fs + 1]"
    by blast
  have all: "map Sample_ID (ts @ fs) = map sample_id [1..<length ts + length fs + 1]"
    using ids by (rule combined_sample_ids)
  have "distinct (map Sample_ID (ts @ fs))"
    by (simp only: all distinct_sample_ids)
  moreover have "map id_number (map Sample_ID (ts @ fs)) = [1..<length ts + length fs + 1]"
    by (simp only: all id_numbers)
  moreover have "length ts + length fs \<le> 999 \<longrightarrow> sorted_wrt (<) (map Sample_ID (ts @ fs))"
  proof
    assume "length ts + length fs \<le> 999"
    then have "length ts + length fs + 1 \<le> 1000"
      by simp
    then have "sorted_wrt (<) (map sample_id [1..<length ts + length fs + 1])"
      by (rule sorted_sample_ids)
    then show "sorted_wrt (<) (map Sample_ID (ts @ fs))"
      by (simp only: all)
  qed
  ultimately show ?thesis
    using ret sorted ids by blast
qed

theorem sample_ids_sequential_witness:
  "(\<exists>r\<in>set example_table. Is_Correct r)
   \<and> (\<exists>r\<in>set example_table. \<not> Is_Correct r \<and> \<not> str_contains (Model_Answer r) skip_marker)
   \<and> (\<exists>true_samples false_samples.
           create_samples identity_perm (DataFrame example_table) = Inr (true_samples, false_samples)
           \<and> sorted_wrt (\<lambda>a b. \<not> sorts_before b a) true_samples
           \<and> sorted_wrt (\<lambda>a b. \<not> sorts_before b a) false_samples
           \<and> map Sample_ID true_samples = map sample_id [1..<length true_samples + 1]
           \<and> map Sample_ID false_samples
               = map sample_id [length true_samples + 1..<length true_samples + length false_samples + 1]
           \<and> distinct (map Sample_ID (true_samples @ false_samples))
           \<and> map id_number (map Sample_ID (true_samples @ false_samples))
               = [1..<length true_samples + length false_samples + 1]
           \<and> (length true_samples + length false_samples \<le> 999
                \<longrightarrow> sorted_wrt (<) (map Sample_ID (true_samples @ false_samples))))"
  using sample_ids_sequential [of example_table identity_perm]
    example_table_correct example_table_incorrect
  by blast

lemma big_table_correct: "\<exists>r\<in>set big_table. Is_Correct r"
  by (simp add: big_table_def example_result_def answers_equal_def)

lemma big_table_incorrect:
  "filter (\<lambda>r. \<not> Is_Correct r \<and> \<not> str_contains (Model_Answer r) skip_marker) big_table
   = replicate 1000 (example_result (ascii ''qwen'') (Some (ascii ''B'')) (Some (ascii ''A'')))"
  by (simp add: big_table_def example_result_def answers_equal_def str_contains_def
      skip_marker_def ascii_def)

text \<open>
  The claim of C1 as stated fails on a table with one correct and a thousand incorrect
  answers: whatever the sample drawn, the identifiers at positions 998 and 999 of the
  combined set are \<^verbatim>\<open>S999\<close> and \<^verbatim>\<open>S1000\<close>, and \<^verbatim>\<open>"S1000" < "S999"\<close>.
\<close>

theorem sample_ids_order_counterexample:
  "(case create_samples identity_perm (DataFrame big_table) of
      Inl e \<Rightarrow> False
    | Inr (true_samples, false_samples) \<Rightarrow>
        map Sample_ID (true_samples @ false_samples) ! 998 = ascii ''S999''
        \<and> map Sample_ID (true_samples @ false_samples) ! 999 = ascii ''S1000''
        \<and> \<not> sorted_wrt (<) (map Sample_ID (true_samples @ false_samples)))"
proof -
  have inc: "\<exists>r\<in>set big_table. \<not> Is_Correct r \<and> \<not> str_contains (Model_Answer r) skip_marker"
  proof -
    have "filter (\<lambda>r. \<not> Is_Correct r \<and> \<not> str_contains (Model_Answer r) skip_marker) big_table \<noteq> []"
      by (simp only: big_table_incorrect) simp
    then show ?thesis
      by (simp only: filter_empty_conv) blast
  qed
  from create_samples_returns [OF big_table_correct inc, of identity_perm] obtain ts fs where
    ret: "create_samples identity_perm (DataFrame big_table) = Inr (ts, fs)"
    and fs: "mset (map result_row.truncate fs)
      = mset (filter (\<lambda>r. \<not> Is_Correct r \<and> \<not> str_contains (Model_Answer r) skip_marker) big_table)"
    and ids: "map Sample_ID ts = map sample_id [1..<length ts + 1]"
      "map Sample_ID fs = map sample_id [length ts + 1..<length ts + length fs + 1]"
    by blast
  let ?ids = "map Sample_ID (ts @ fs)"
  have all: "?ids = map sample_id [1..<length ts + length fs + 1]"
    using ids by (rule combined_sample_ids)
  have "size (mset (map result_row.truncate fs)) = 1000"
    by (simp only: fs big_table_incorrect) simp
  then have len: "1000 \<le> length ts + length fs"
    by simp
  then have "map sample_id [1..<length ts + length fs + 1] ! 998 = sample_id 999"
    and "map sample_id [1..<length ts + length fs + 1] ! 999 = sample_id 1000"
    by (simp_all del: upt_Suc)
  then have a: "?ids ! 998 = sample_id 999" and b: "?ids ! 999 = sample_id 1000"
    by (simp_all only: all)
  have "\<not> sorted_wrt (<) ?ids"
  proof
    assume "sorted_wrt (<) ?ids"
    moreover have "(998::nat) < 999" and "999 < length ?ids"
      using len by simp_all
    ultimately have "?ids ! 998 < ?ids ! 999"
      by (rule sorted_wrt_nth_less)
    with a b have "sample_id 999 < sample_id 1000"
      by (simp only:)
    with sample_id_1000_less_999 show False
      by (rule less_asym)
  qed
  with a b show ?thesis
    by (simp add: ret sample_id_999 sample_id_1000)
qed

subsection \<open>Loading\<close>

lemma parts_example:
  "split (str_replace (ascii ''results_policy_qwen_condition_1_single.csv'') (ascii ''.csv'') []) 95
     = [ascii ''results'', ascii ''policy'', ascii ''qwen'', ascii ''condition'', ascii ''1'',
        ascii ''single'']"
  "split (str_replace (ascii ''results_policy_qwen_condition_2_single.csv'') (ascii ''.csv'') []) 95
     = [ascii ''results'', ascii ''policy'', ascii ''qwen'', ascii ''condition'', ascii ''2'',
        ascii ''single'']"
  "split (str_replace (ascii ''results_notes.csv'') (ascii ''.csv'') []) 95
     = [ascii ''results'', ascii ''notes'']"
  by code_simp+

lemma index_example:
  "list_index [ascii ''results'', ascii ''policy'', ascii ''qwen'', ascii ''condition'', ascii ''1'',
        ascii ''single''] (ascii ''condition'') = Inr 3"
  "list_index [ascii ''results'', ascii ''policy'', ascii ''qwen'', ascii ''condition'', ascii ''2'',
        ascii ''single''] (ascii ''condition'') = Inr 3"
  by code_simp+

lemma process_row_example:
  "process_row ascii_db (ascii ''condition1'') (ascii ''policy'') (ascii ''single'')
     (example_csv_row (Some (ascii ''a, b'')) (Some (ascii ''AB'')) (Str (ascii ''85%'')))
   = Inr (hd example_loaded)"
proof -
  have "clean_answer ascii_db (Some (ascii ''a, b'')) = Some (ascii ''ab'')"
    "clean_answer ascii_db (Some (ascii ''AB'')) = Some (ascii ''AB'')"
    by code_simp+
  moreover have "answers_equal (Some (ascii ''ab'')) (Some (ascii ''AB'')) = False"
    by code_simp
  ultimately show ?thesis
    by (simp add: process_row_def example_csv_row_def example_loaded_def
        clean_confidence_value_percent del: clean_confidence_value.simps)
qed

lemma process_file_example:
  "process_file ascii_db (example_files ! 0) = Inr (Some example_loaded)"
  "process_file ascii_db (example_files ! 1) = Inr None"
  "process_file ascii_db (example_files ! 2) = Inr None"
proof -
  have c: "ascii ''condition'' @ ascii ''1'' = ascii ''condition1''" "ascii ''2'' \<noteq> ascii ''1''"
    by (simp_all add: ascii_def)
  have l: "example_loaded = [hd example_loaded]"
    by (simp add: example_loaded_def)
  show "process_file ascii_db (example_files ! 0) = Inr (Some example_loaded)"
    by (simp add: process_file_def example_files_def parts_example index_example subscript_def
        process_row_example c Let_def l [symmetric] del: list_index.simps)
  show "process_file ascii_db (example_files ! 1) = Inr None"
    by (simp add: process_file_def example_files_def parts_example index_example subscript_def
        c Let_def del: list_index.simps)
  show "process_file ascii_db (example_files ! 2) = Inr None"
    by (simp add: process_file_def example_files_def parts_example)
qed

lemma load_example: "load_and_process_files ascii_db example_files = Inr (DataFrame example_loaded)"
proof -
  have "example_files = [example_files ! 0, example_files ! 1, example_files ! 2]"
    by (simp add: example_files_def)
  then have "load_loop ascii_db example_files [] = Inr [example_loaded]"
    using process_file_example by (metis append_Nil load_loop.simps option.simps(4,5) sum.simps(6))
  then show ?thesis
    by (simp add: load_and_process_files_def example_loaded_def)
qed

lemma apply_rows_set:
  "apply_rows f rows = Inr rs \<Longrightarrow> r \<in> set rs \<Longrightarrow> \<exists>raw\<in>set rows. f raw = Inr r"
proof (induction rows arbitrary: rs)
  case Nil
  then show ?case by simp
next
  case (Cons a rows)
  then show ?case
    by (auto split: sum.splits)
qed

lemma clean_answer_letters:
  assumes "clean_answer U a = Some s"
  shows "list_all (isalpha U) s"
proof (cases a)
  case None
  with assms show ?thesis by (simp add: clean_answer_def)
next
  case (Some x)
  with assms have "s = filter (isalpha U) x"
    by (simp add: clean_answer_filter)
  then show ?thesis
    by (simp add: list_all_iff)
qed

lemma process_row_cleaned:
  assumes "process_row U condition exam_type question_type raw = Inr r"
  shows "Model_Answer r = clean_answer U (Model_Answer raw)"
    and "Correct_Answer r = clean_answer U (Correct_Answer raw)"
    and "Is_Correct r = answers_equal (Model_Answer r) (Correct_Answer r)"
  using assms by (auto simp: process_row_def Let_def split: sum.splits)

lemma process_file_rows:
  assumes "process_file U file = Inr (Some df)" and "r \<in> set df"
  shows "\<exists>raw\<in>set (snd file). \<exists>condition exam_type question_type.
           process_row U condition exam_type question_type raw = Inr r"
proof -
  from assms(1) obtain condition exam_type question_type where
    "apply_rows (process_row U condition exam_type question_type) (snd file) = Inr df"
    by (auto simp: process_file_def Let_def split: if_splits sum.splits error.splits bool.splits)
  from apply_rows_set [OF this assms(2)] show ?thesis
    by blast
qed

lemma load_loop_rows:
  assumes "load_loop U csv_files dfs = Inr dfs'" and "r \<in> set (concat dfs')"
  shows "r \<in> set (concat dfs)
         \<or> (\<exists>file\<in>set csv_files. \<exists>df. process_file U file = Inr (Some df) \<and> r \<in> set df)"
  using assms
proof (induction csv_files arbitrary: dfs)
  case Nil
  then show ?case by simp
next
  case (Cons csv_file csv_files)
  show ?case
  proof (cases "process_file U csv_file")
    case (Inl e)
    with Cons.prems show ?thesis by simp
  next
    case (Inr skipped)
    show ?thesis
    proof (cases skipped)
      case None
      with Inr Cons.prems have "load_loop U csv_files dfs = Inr dfs'" by simp
      from Cons.IH [OF this Cons.prems(2)] show ?thesis by auto
    next
      case (Some df)
      with Inr Cons.prems have "load_loop U csv_files (dfs @ [df]) = Inr dfs'" by simp
      from Cons.IH [OF this Cons.prems(2)] Inr Some show ?thesis by auto
    qed
  qed
qed

lemma loaded_rows:
  assumes "load_and_process_files U csv_files = Inr (DataFrame rows)" and "r \<in> set rows"
  shows "\<exists>file\<in>set csv_files. \<exists>raw\<in>set (snd file). \<exists>condition exam_type question_type.
           process_row U condition exam_type question_type raw = Inr r"
proof -
  from assms(1) obtain dfs where
    l: "load_loop U csv_files [] = Inr dfs" and "rows = concat dfs"
    by (auto simp: load_and_process_files_def split: sum.splits if_splits)
  with assms(2) have "r \<in> set (concat dfs)" by simp
  from load_loop_rows [OF l this] obtain csv_file df where
    "csv_file \<in> set csv_files" "process_file U csv_file = Inr (Some df)" "r \<in> set df"
    by auto
  with process_file_rows show ?thesis
    by blast
qed

text \<open>
  C6, amended. Every record of the loaded table comes from a line of a file whose
  model answer and correct answer were cleaned by \<^verbatim>\<open>clean_answer\<close> before the
  comparison: both answers, when not missing, consist of letters only (spaces,
  punctuation and digits are stripped, the case of the letters is kept), and the
  correctness field says that the two cleaned answers are present and equal.
\<close>

theorem loaded_answers_normalized:
  assumes "load_and_process_files U csv_files = Inr (DataFrame rows)" and "r \<in> set rows"
  shows "(\<exists>file\<in>set csv_files. \<exists>raw\<in>set (snd file).
            Model_Answer r = clean_answer U (Model_Answer raw)
            \<and> Correct_Answer r = clean_answer U (Correct_Answer raw))
         \<and> (\<forall>s. Model_Answer r = Some s \<longrightarrow> list_all (isalpha U) s)
         \<and> (\<forall>s. Correct_Answer r = Some s \<longrightarrow> list_all (isalpha U) s)
         \<and> Is_Correct r = (\<exists>s. Model_Answer r = Some s \<and> Correct_Answer r = Some s)"
proof -
  from loaded_rows [OF assms] obtain csv_file raw condition exam_type question_type where
    files: "csv_file \<in> set csv_files" "raw \<in> set (snd csv_file)"
    and row: "process_row U condition exam_type question_type raw = Inr r"
    by blast
  note c = process_row_cleaned [OF row]
  have "\<forall>s. Model_Answer r = Some s \<longrightarrow> list_all (isalpha U) s"
    using c(1) clean_answer_letters by metis
  moreover have "\<forall>s. Correct_Answer r = Some s \<longrightarrow> list_all (isalpha U) s"
    using c(2) clean_answer_letters by metis
  moreover have "Is_Correct r = (\<exists>s. Model_Answer r = Some s \<and> Correct_Answer r = Some s)"
    unfolding c(3) by (auto simp: answers_equal_def split: option.splits)
  ultimately show ?thesis
    using files c(1,2) by blast
qed

theorem loaded_answers_normalized_witness:
  "load_and_process_files ascii_db example_files = Inr (DataFrame example_loaded)
   \<and> hd example_loaded \<in> set example_loaded
   \<and> (\<exists>file\<in>set example_files. \<exists>raw\<in>set (snd file).
            Model_Answer (hd example_loaded) = clean_answer ascii_db (Model_Answer raw)
            \<and> Correct_Answer (hd example_loaded) = clean_answer ascii_db (Correct_Answer raw))
   \<and> list_all (isalpha ascii_db) (ascii ''ab'')
   \<and> list_all (isalpha ascii_db) (ascii ''AB'')
   \<and> Is_Correct (hd example_loaded)
       = (\<exists>s. Model_Answer (hd example_loaded) = Some s \<and> Correct_Answer (hd example_loaded) = Some s)"
proof -
  have m: "hd example_loaded \<in> set example_loaded"
    and a: "Model_Answer (hd example_loaded) = Some (ascii ''ab'')"
    and k: "Correct_Answer (hd example_loaded) = Some (ascii ''AB'')"
    by (simp_all add: example_loaded_def)
  from loaded_answers_normalized [OF load_example m] a k load_example m show ?thesis
    by blast
qed

text \<open>
  The claim of C6 as stated fails: the answer \<^verbatim>\<open>"a, b"\<close> is loaded as \<^verbatim>\<open>"ab"\<close>, which
  is not made of upper-case letters, and it is compared unequal to the key \<^verbatim>\<open>"AB"\<close>.
\<close>

theorem loaded_answers_uppercase_counterexample:
  "load_and_process_files ascii_db example_files = Inr (DataFrame example_loaded)
   \<and> map Model_Answer example_loaded = [Some (ascii ''ab'')]
   \<and> map Correct_Answer example_loaded = [Some (ascii ''AB'')]
   \<and> map Is_Correct example_loaded = [False]
   \<and> \<not> list_all (\<lambda>c. 65 \<le> c \<and> c \<le> 90) (ascii ''ab'')"
  using load_example by (simp add: example_loaded_def ascii_def)

subsection \<open>Where the later stages raise\<close>

lemma rater_files_short:
  "length samples_df < 30 \<Longrightarrow> rater_files perm1 perm77 samples_df = Inl ValueError"
  by (simp add: rater_files_def reliability_sample_def df_sample_def Let_def)

lemma length_concat_mono:
  "(\<And>m. length (f m) \<le> length (g m)) \<Longrightarrow> length (concat (map f ms)) \<le> length (concat (map g ms))"
  by (induction ms) (simp_all add: add_mono)

lemma length_true_tables_le: "length (concat (true_tables perm rows)) \<le> length rows"
proof -
  let ?ms = "filter (\<lambda>m. correct_answers_of rows m \<noteq> []) (unique (map Model rows))"
  have "length (model_sample perm rows m) \<le> length (correct_answers_of rows m)" for m
    by (simp add: model_sample_def take_rows_def)
  then have "length (concat (true_tables perm rows))
      \<le> length (concat (map (correct_answers_of rows) ?ms))"
    unfolding true_tables_def by (rule length_concat_mono)
  also have "concat (map (correct_answers_of rows) ?ms)
      = concat (map (correct_answers_of rows) (unique (map Model rows)))"
    by (rule concat_map_nonempty)
  also have "length \<dots> = size (mset \<dots>)"
    by simp
  also have "mset (concat (map (correct_answers_of rows) (unique (map Model rows))))
      = filter_mset (\<lambda>r. Model r \<in> set (unique (map Model rows)) \<and> Is_Correct r = True) (mset rows)"
    unfolding correct_answers_of_def by (rule mset_concat_by_model) simp
  also have "size \<dots> \<le> size (mset rows)"
    by (rule size_filter_mset_lesseq)
  finally show ?thesis
    by simp
qed

lemma load_no_files: "load_and_process_files U [] = Inr Empty_DataFrame"
  by (simp add: load_and_process_files_def)

lemma create_samples_Empty: "create_samples perm Empty_DataFrame = Inl KeyError"
  by (simp add: create_samples_def)

lemma create_samples_no_incorrect:
  "\<not> (\<exists>r\<in>set rows. \<not> Is_Correct r \<and> \<not> str_contains (Model_Answer r) skip_marker)
   \<Longrightarrow> create_samples perm (DataFrame rows) = Inl KeyError"
  by (simp only: create_samples_eq false_tables_empty) simp

lemma create_samples_no_correct:
  "\<not> (\<exists>r\<in>set rows. Is_Correct r) \<Longrightarrow> create_samples perm (DataFrame rows) = Inl KeyError"
  by (simp only: create_samples_eq true_tables_empty) simp

text \<open>
  C3. On a table of thirty-five correct answers of one model \<^verbatim>\<open>create_samples\<close>
  gives no correct-answer sample at all, where the claim has thirty rows: no incorrect
  answer was collected, the table of incorrect samples is \<^verbatim>\<open>pd.DataFrame()\<close>, and
  \<^verbatim>\<open>sort_values\<close> at line 214 raises \<^verbatim>\<open>KeyError\<close> before the guards of lines 217 and
  219 for an empty table are reached.
\<close>

theorem correct_sample_raises:
  "create_samples perm (DataFrame all_correct_table) = Inl KeyError
   \<and> length (filter (\<lambda>r. Model r = ascii ''qwen'' \<and> Is_Correct r) all_correct_table) = 35"
proof
  show "create_samples perm (DataFrame all_correct_table) = Inl KeyError"
    by (rule create_samples_no_incorrect)
      (simp add: all_correct_table_def example_result_def answers_equal_def)
  show "length (filter (\<lambda>r. Model r = ascii ''qwen'' \<and> Is_Correct r) all_correct_table) = 35"
    by (simp add: all_correct_table_def example_result_def answers_equal_def)
qed

text \<open>
  C4. On a table of seven wrong answers of one model, none of them a skip,
  \<^verbatim>\<open>create_samples\<close> gives no incorrect-answer sample at all, where the claim has
  these seven records: no correct answer was sampled, the table of correct samples is
  \<^verbatim>\<open>pd.DataFrame()\<close>, and \<^verbatim>\<open>sort_values\<close> at line 213 raises \<^verbatim>\<open>KeyError\<close>.
\<close>

theorem incorrect_sample_raises:
  "create_samples perm (DataFrame all_incorrect_table) = Inl KeyError
   \<and> length (filter (\<lambda>r. Is_Correct r = False \<and> \<not> str_contains (Model_Answer r) skip_marker)
         all_incorrect_table) = 7"
proof
  show "create_samples perm (DataFrame all_incorrect_table) = Inl KeyError"
    by (rule create_samples_no_correct)
      (simp add: all_incorrect_table_def example_result_def answers_equal_def ascii_def)
  show "length (filter (\<lambda>r. Is_Correct r = False \<and> \<not> str_contains (Model_Answer r) skip_marker)
         all_incorrect_table) = 7"
    by (simp add: all_incorrect_table_def example_result_def answers_equal_def ascii_def
        str_contains_def skip_marker_def)
qed

text \<open>
  C10. With no input file \<^verbatim>\<open>load_and_process_files\<close> returns the empty table and no
  error. The later stages do raise on tables the earlier stages hand them:
  \<^verbatim>\<open>create_samples\<close> raises \<^verbatim>\<open>KeyError\<close> on that empty table and on a table in which
  every answer is correct, and on the example table, where sampling returns, drawing
  the thirty reliability rows raises \<^verbatim>\<open>ValueError\<close> for both sample sets.
\<close>

theorem later_stages_raise:
  "load_and_process_files U [] = Inr Empty_DataFrame
   \<and> create_samples perm Empty_DataFrame = Inl KeyError
   \<and> create_samples perm
        (DataFrame [example_result (ascii ''qwen'') (Some (ascii ''A'')) (Some (ascii ''A''))])
       = Inl KeyError
   \<and> (\<exists>true_samples false_samples.
         create_samples perm (DataFrame example_table) = Inr (true_samples, false_samples)
         \<and> rater_files perm1 perm77 true_samples = Inl ValueError
         \<and> rater_files perm1 perm77 false_samples = Inl ValueError)"
proof -
  have "create_samples perm
        (DataFrame [example_result (ascii ''qwen'') (Some (ascii ''A'')) (Some (ascii ''A''))])
       = Inl KeyError"
    by (rule create_samples_no_incorrect) (simp add: example_result_def answers_equal_def)
  moreover have "\<exists>true_samples false_samples.
         create_samples perm (DataFrame example_table) = Inr (true_samples, false_samples)
         \<and> rater_files perm1 perm77 true_samples = Inl ValueError
         \<and> rater_files perm1 perm77 false_samples = Inl ValueError"
  proof -
    from create_samples_returns [OF example_table_correct example_table_incorrect, of perm]
    obtain ts fs where
      ret: "create_samples perm (DataFrame example_table) = Inr (ts, fs)"
      and t: "mset (map result_row.truncate ts) = mset (concat (true_tables perm example_table))"
      and f: "mset (map result_row.truncate fs)
        = mset (filter (\<lambda>r. \<not> Is_Correct r \<and> \<not> str_contains (Model_Answer r) skip_marker) example_table)"
      by blast
    have four: "length example_table = 4"
      by (simp add: example_table_def)
    have "size (mset (map result_row.truncate ts)) = size (mset (concat (true_tables perm example_table)))"
      by (simp only: t)
    then have "length ts = length (concat (true_tables perm example_table))"
      by simp
    with length_true_tables_le [of perm example_table] four have "length ts < 30"
      by simp
    moreover have "size (mset (map result_row.truncate fs))
        = size (mset (filter (\<lambda>r. \<not> Is_Correct r \<and> \<not> str_contains (Model_Answer r) skip_marker)
            example_table))"
      by (simp only: f)
    then have "length fs
        = length (filter (\<lambda>r. \<not> Is_Correct r \<and> \<not> str_contains (Model_Answer r) skip_marker)
            example_table)"
      by (simp only: size_mset length_map)
    then have "length fs \<le> length example_table"
      by (simp only: length_filter_le)
    with four have "length fs < 30"
      by simp
    ultimately show ?thesis
      using ret rater_files_short by blast
  qed
  ultimately show ?thesis
    using load_no_files create_samples_Empty by blast
qed

end
